theory Spec2Isabelle
  imports Main "HOL-Library.AList" "HOL-Library.Monad_Syntax"
begin

section \<open>Shared JavaScript notions\<close>

text \<open>
  Errors are values. Every \<^verbatim>\<open>throw\<close> of the sources and every rejection reason of a
  promise is an element of this type.
\<close>

datatype error =
    NotAnObject              \<comment> \<open>\<^verbatim>\<open>Messages to publish must be objects\<close>\<close>
  | NoRoutingKey             \<comment> \<open>\<^verbatim>\<open>No routing key provided in the message\<close>\<close>
  | TypeError                \<comment> \<open>raised by the runtime, e.g. \<^verbatim>\<open>Buffer.from(undefined)\<close>\<close>
  | ChannelError string      \<comment> \<open>anything the AMQP client library reports\<close>

text \<open>
  \<^verbatim>\<open>Array.prototype.indexOf\<close>: the first position holding the element, or \<open>-1\<close>.
\<close>

fun indexOf :: "'a list \<Rightarrow> 'a \<Rightarrow> int" where
  "indexOf [] x = - 1"
| "indexOf (y # ys) x =
     (if y = x then 0
      else (let r = indexOf ys x in if r < 0 then - 1 else r + 1))"

text \<open>
  Reading \<^verbatim>\<open>arr[i]\<close>: JavaScript yields \<^verbatim>\<open>undefined\<close> outside the array, which is
  \<open>None\<close> here.
\<close>

definition at_index :: "'a list \<Rightarrow> int \<Rightarrow> 'a option" where
  "at_index xs i = (if 0 \<le> i \<and> i < int (length xs) then Some (xs ! nat i) else None)"

text \<open>A JavaScript string is falsy exactly when it is empty.\<close>

definition truthy_string :: "string \<Rightarrow> bool" where
  "truthy_string s = (s \<noteq> [])"

section \<open>AMQPConnector (src/index.ts)\<close>

type_synonym ServerURI = string

datatype server_uri_arg = Single ServerURI | Many "ServerURI list"

record socket_options =
  noDelay :: "bool option"

record AMQPConnectorOptions =
  socket :: "socket_options option"

record AMQPConnectorState =
  cs_started :: bool
  cs_connecting :: bool
  cs_connection :: "nat option"
  cs_lastUsedURI :: "ServerURI option"
  cs_reconnectTimeout :: "nat option"
  cs_destroy :: "nat option"

record AMQPConnector =
  serverURIs :: "ServerURI list"
  connector_options :: AMQPConnectorOptions
  connector_state :: AMQPConnectorState

text \<open>
  The constructor. A single URI becomes a one-element list, an array is copied
  (\<^verbatim>\<open>slice\<close>). The body contains no \<^verbatim>\<open>throw\<close>; the result type is a sum only so
  that "the constructor rejects its argument" can be said at all.
\<close>

definition AMQPConnector_new ::
  "server_uri_arg \<Rightarrow> AMQPConnectorOptions option \<Rightarrow> error + AMQPConnector" where
  "AMQPConnector_new serverURI options =
     (let uris = (case serverURI of Many us \<Rightarrow> us | Single u \<Rightarrow> [u]);
          opts = (case options of None \<Rightarrow> \<lparr>socket = None\<rparr> | Some given \<Rightarrow> given);
          opts' = opts\<lparr>socket := (case socket opts of None \<Rightarrow> Some \<lparr>noDelay = None\<rparr>
                                                   | Some s \<Rightarrow> Some s)\<rparr>
      in Inr \<lparr>serverURIs = uris,
              connector_options = opts',
              connector_state = \<lparr>cs_started = False, cs_connecting = False,
                cs_connection = None, cs_lastUsedURI = None,
                cs_reconnectTimeout = None, cs_destroy = None\<rparr>\<rparr>)"

text \<open>
  \<^verbatim>\<open>_selectServerURI\<close>. The index of the last used URI is looked up only when
  \<^verbatim>\<open>lastUsedURI\<close> is truthy (\<^verbatim>\<open>lastUsedURI ? indexOf(...) : -1\<close>), so both
  \<^verbatim>\<open>null\<close> and the empty string give \<open>-1\<close>.
\<close>

definition selectServerURI :: "ServerURI list \<Rightarrow> ServerURI option \<Rightarrow> ServerURI option" where
  "selectServerURI uris lastUsedURI =
     (let lastURIIndex =
            (case lastUsedURI of
               None \<Rightarrow> - 1
             | Some u \<Rightarrow> if truthy_string u then indexOf uris u else - 1)
      in if lastURIIndex < 0 then at_index uris 0
         else if lastURIIndex < int (length uris) - 1 then at_index uris (lastURIIndex + 1)
         else at_index uris 0)"

text \<open>
  The legacy JavaScript connector (lib/AMQPConnector.js) calls \<^verbatim>\<open>indexOf\<close> on whatever
  \<^verbatim>\<open>lastUsedURI\<close> holds, without the truthiness test.
\<close>

definition selectServerURI_legacy :: "ServerURI list \<Rightarrow> ServerURI option \<Rightarrow> ServerURI option" where
  "selectServerURI_legacy uris lastUsedURI =
     (let lastURIIndex = (case lastUsedURI of None \<Rightarrow> - 1 | Some u \<Rightarrow> indexOf uris u)
      in if lastURIIndex < 0 then at_index uris 0
         else if lastURIIndex < int (length uris) - 1 then at_index uris (lastURIIndex + 1)
         else at_index uris 0)"

section \<open>AMQPPublishStream (AMQPPublishStream.ts)\<close>

text \<open>
  A JavaScript number, as far as truthiness goes: a value or \<^verbatim>\<open>NaN\<close>. Zero and
  \<^verbatim>\<open>NaN\<close> are the falsy numbers.
\<close>

datatype number = Num int | NaN

definition truthy_number :: "number \<Rightarrow> bool" where
  "truthy_number n = (case n of Num k \<Rightarrow> k \<noteq> 0 | NaN \<Rightarrow> False)"

text \<open>
  An optional property holds \<open>None\<close> when it is missing or \<^verbatim>\<open>undefined\<close>. The
  expression \<^verbatim>\<open>x || d\<close> yields \<open>x\<close> when it is truthy and \<open>d\<close> otherwise.
\<close>

definition or_default :: "('a \<Rightarrow> bool) \<Rightarrow> 'a option \<Rightarrow> 'a \<Rightarrow> 'a" where
  "or_default truthy x d = (case x of None \<Rightarrow> d | Some v \<Rightarrow> if truthy v then v else d)"

record AMQPPublishStreamOptions =
  highWaterMark :: "number option"

text \<open>What the constructor hands to the \<^verbatim>\<open>Writable\<close> base class.\<close>

record writable_options =
  w_objectMode :: bool
  w_highWaterMark :: number
  w_decodeStrings :: bool

type_synonym bytes = "nat list"

record publish_options =
  persistent :: "bool option"

text \<open>
  A confirm channel, seen from the stream: \<^verbatim>\<open>publish\<close> either throws at once
  (\<open>Some\<close>) or accepts the message (\<open>None\<close>) and confirms it later.
\<close>

type_synonym ConfirmChannel = "string \<Rightarrow> string \<Rightarrow> bytes \<Rightarrow> publish_options \<Rightarrow> error option"

record AMQPPublishStream =
  ps_super :: writable_options
  ps_channel :: ConfirmChannel
  ps_options :: AMQPPublishStreamOptions

definition AMQPPublishStream_new ::
  "ConfirmChannel \<Rightarrow> AMQPPublishStreamOptions option \<Rightarrow> AMQPPublishStream" where
  "AMQPPublishStream_new channel options =
     (let opts = (case options of None \<Rightarrow> \<lparr>highWaterMark = None\<rparr> | Some given \<Rightarrow> given)
      in \<lparr>ps_super = \<lparr>w_objectMode = True,
                        w_highWaterMark = or_default truthy_number (highWaterMark opts) (Num 8),
                        w_decodeStrings = True\<rparr>,
          ps_channel = channel,
          ps_options = opts\<rparr>)"

text \<open>
  The chunk given to \<^verbatim>\<open>_write\<close>. The stream is in object mode, so any JavaScript value
  can arrive; an object is read through the fields of \<^verbatim>\<open>Message\<close>, each of which may
  be missing.
\<close>

datatype content = Text string | Buffer bytes

record Message =
  exchange :: "string option"
  routingKey :: "string option"
  content :: "content option"
  options :: "publish_options option"
  callback :: "nat option"

datatype chunk =
    Undefined
  | Null
  | Boolean bool
  | Number number
  | String string
  | Object Message

text \<open>\<^verbatim>\<open>!message || typeof(message) !== 'object'\<close>: only a non-null object passes.\<close>

definition as_message :: "chunk \<Rightarrow> Message option" where
  "as_message c = (case c of Object m \<Rightarrow> Some m | _ \<Rightarrow> None)"

text \<open>
  \<^verbatim>\<open>Buffer.isBuffer(c) ? c : Buffer.from(c, 'utf-8')\<close>. A string is taken as its bytes
  (strings here are byte sequences already); \<^verbatim>\<open>Buffer.from(undefined)\<close> throws a
  \<^verbatim>\<open>TypeError\<close>.
\<close>

definition to_buffer :: "content option \<Rightarrow> error + bytes" where
  "to_buffer c =
     (case c of
        None \<Rightarrow> Inl TypeError
      | Some (Buffer b) \<Rightarrow> Inr b
      | Some (Text s) \<Rightarrow> Inr (map of_char s))"

record verified =
  v_exchange :: string
  v_routingKey :: string
  v_content :: bytes
  v_options :: publish_options
  v_callback :: "nat option"

text \<open>The first \<^verbatim>\<open>try\<close> block of \<^verbatim>\<open>_write\<close>, statement by statement.\<close>

definition verify_message :: "chunk \<Rightarrow> error + verified" where
  "verify_message c =
     (case as_message c of
        None \<Rightarrow> Inl NotAnObject
      | Some m \<Rightarrow>
          (let ex = or_default truthy_string (exchange m) [];
               rk = routingKey m
           in case to_buffer (content m) of
                Inl e \<Rightarrow> Inl e
              | Inr buf \<Rightarrow>
                  (let opts = (case options m of None \<Rightarrow> \<lparr>persistent = Some False\<rparr>
                                             | Some given \<Rightarrow> given);
                       cb = callback m
                   in case rk of
                        None \<Rightarrow> Inl NoRoutingKey
                      | Some k \<Rightarrow>
                          if truthy_string k
                          then Inr \<lparr>v_exchange = ex, v_routingKey = k, v_content = buf,
                                    v_options = opts, v_callback = cb\<rparr>
                          else Inl NoRoutingKey)))"

text \<open>
  What \<^verbatim>\<open>_write\<close> does before it returns, in order: calls of \<^verbatim>\<open>channel.publish\<close> and
  calls of the write callback.
\<close>

datatype write_effect =
    Publish string string bytes publish_options
  | WriteCallback "error option"
  | CustomCallback nat

definition write_message :: "AMQPPublishStream \<Rightarrow> chunk \<Rightarrow> write_effect list" where
  "write_message stream message =
     (case verify_message message of
        Inl messageVerificationError \<Rightarrow> [WriteCallback (Some messageVerificationError)]
      | Inr v \<Rightarrow>
          (case ps_channel stream (v_exchange v) (v_routingKey v) (v_content v) (v_options v) of
             Some publishError \<Rightarrow>
               [Publish (v_exchange v) (v_routingKey v) (v_content v) (v_options v),
                WriteCallback (Some publishError)]
           | None \<Rightarrow>
               [Publish (v_exchange v) (v_routingKey v) (v_content v) (v_options v)]))"

text \<open>
  The publisher confirm arrives later and runs \<^verbatim>\<open>publishCallback\<close> for the message
  that was published.
\<close>

definition publishCallback :: "verified \<Rightarrow> error option \<Rightarrow> write_effect list" where
  "publishCallback v publishError =
     (case publishError of
        Some e \<Rightarrow> [WriteCallback (Some e)]
      | None \<Rightarrow>
          WriteCallback None #
          (case v_callback v of None \<Rightarrow> [] | Some cb \<Rightarrow> [CustomCallback cb]))"

fun is_publish :: "write_effect \<Rightarrow> bool" where
  "is_publish (Publish ex rk c opts) = True"
| "is_publish other = False"

section \<open>AMQPChannelManager (AMQPChannelManager.ts)\<close>

type_synonym chan = nat



















section \<open>AMQPConsumer (AMQPConsumer.ts)\<close>

datatype optvalue = OBool bool | OStr string | ONum int

text \<open>
  An options object with arbitrary keys: the keys in insertion order with their values.
  Assigning a property is \<^const>\<open>AList.update\<close>: an existing key keeps its place, a new key
  goes to the end.
\<close>

type_synonym options_object = "(string \<times> optvalue) list"

datatype ExchangeType = Direct | Topic | Fanout | Headers

record Exchange =
  ex_name :: string
  ex_type :: ExchangeType
  ex_options :: "options_object option"

record Binding =
  b_exchange :: string
  b_pattern :: string
  b_options :: "options_object option"

record ConsumeOptions =
  co_exclusive :: "bool option"
  co_prefetch :: "number option"

record AMQPConsumerOptions =
  o_queue :: "options_object option"
  o_consume :: "ConsumeOptions option"
  o_exchanges :: "Exchange list option"
  o_binds :: "Binding list option"

type_synonym promise = nat

datatype outcome = Fulfilled | Rejected error

text \<open>The RPCs a consumer sends on its channel, in the order sent.\<close>

datatype rpc =
    AssertQueue string options_object
  | AssertExchange string ExchangeType options_object
  | BindQueue string string string options_object
  | Prefetch number
  | Consume string
  | Cancel "string option"
  | Ack nat
  | Reject nat bool

datatype consumer_event = MessageEvent nat | CancelEvent

text \<open>
  An invocation of the \<^verbatim>\<open>async\<close> method \<^verbatim>\<open>_startConsuming\<close> is suspended at one of its
  three \<^verbatim>\<open>await\<close>s; after the first it knows the actual queue name.
\<close>

datatype await_point = AwaitQueue | AwaitExchanges string | AwaitBinds string

datatype reply = Failed error | Ok string

text \<open>
  The consumer's fields, followed by its surroundings: the next fresh promise, the
  promises settled so far, the suspended invocations of \<^verbatim>\<open>_startConsuming\<close> (each with
  the promise the invocation returned), the RPCs sent and the events emitted.
\<close>

record AMQPConsumer =
  ac_channel :: chan
  ac_queueName :: string
  ac_queueOptions :: options_object
  ac_consumeOptions :: ConsumeOptions
  ac_exchanges :: "Exchange list"
  ac_binds :: "Binding list"
  ac_consumerTag :: "string option"
  ac_started :: bool
  ac_consumePromise :: "promise option"
  ac_stopPromise :: "promise option"
  ac_nextPromise :: promise
  ac_settled :: "(promise \<times> outcome) list"
  ac_running :: "(promise \<times> await_point) list"
  ac_rpcs :: "rpc list"
  ac_emitted :: "consumer_event list"

definition AMQPConsumer_new :: "chan \<Rightarrow> string \<Rightarrow> AMQPConsumerOptions \<Rightarrow> AMQPConsumer" where
  "AMQPConsumer_new channel queueName opts =
     \<lparr>ac_channel = channel,
      ac_queueName = queueName,
      ac_queueOptions = (case o_queue opts of None \<Rightarrow> [] | Some q \<Rightarrow> q),
      ac_consumeOptions = (case o_consume opts of
                             None \<Rightarrow> \<lparr>co_exclusive = None, co_prefetch = None\<rparr>
                           | Some c \<Rightarrow> c),
      ac_exchanges = (case o_exchanges opts of None \<Rightarrow> [] | Some es \<Rightarrow> es),
      ac_binds = (case o_binds opts of None \<Rightarrow> [] | Some bs \<Rightarrow> bs),
      ac_consumerTag = None,
      ac_started = False,
      ac_consumePromise = None,
      ac_stopPromise = None,
      ac_nextPromise = 0,
      ac_settled = [],
      ac_running = [],
      ac_rpcs = [],
      ac_emitted = []\<rparr>"

definition send :: "rpc list \<Rightarrow> AMQPConsumer \<Rightarrow> AMQPConsumer" where
  "send rs c = c\<lparr>ac_rpcs := ac_rpcs c @ rs\<rparr>"

definition settle :: "promise \<Rightarrow> outcome \<Rightarrow> AMQPConsumer \<Rightarrow> AMQPConsumer" where
  "settle p r c = c\<lparr>ac_settled := ac_settled c @ [(p, r)]\<rparr>"

definition establishExchange :: "Exchange \<Rightarrow> rpc" where
  "establishExchange e =
     AssertExchange (ex_name e) (ex_type e) (case ex_options e of None \<Rightarrow> [] | Some opts \<Rightarrow> opts)"

definition establishBind :: "string \<Rightarrow> Binding \<Rightarrow> rpc" where
  "establishBind actualQueueName b =
     BindQueue actualQueueName (b_exchange b) (b_pattern b)
       (case b_options b of None \<Rightarrow> [] | Some opts \<Rightarrow> opts)"

text \<open>
  Calling \<^verbatim>\<open>_startConsuming\<close>: an \<^verbatim>\<open>async\<close> function runs up to its first \<^verbatim>\<open>await\<close>
  and returns a new promise. So the call sends \<^verbatim>\<open>assertQueue\<close> and suspends;
  \<^verbatim>\<open>_started\<close> is not touched yet.
\<close>

definition startConsuming :: "AMQPConsumer \<Rightarrow> promise \<times> AMQPConsumer" where
  "startConsuming c =
     (let p = ac_nextPromise c
      in (p, send [AssertQueue (ac_queueName c) (ac_queueOptions c)]
               (c\<lparr>ac_nextPromise := p + 1, ac_running := ac_running c @ [(p, AwaitQueue)]\<rparr>)))"

text \<open>
  The invocation that returned promise \<open>p\<close> resumes because what it awaits has
  settled. A failure rejects \<open>p\<close>. Otherwise the body runs on to the next \<^verbatim>\<open>await\<close>, or,
  after the bindings, sends \<^verbatim>\<open>prefetch\<close> (if the option is truthy) and \<^verbatim>\<open>consume\<close>,
  sets \<^verbatim>\<open>_started\<close> and fulfils \<open>p\<close>.
\<close>

definition resumeStartConsuming :: "promise \<Rightarrow> reply \<Rightarrow> AMQPConsumer \<Rightarrow> AMQPConsumer" where
  "resumeStartConsuming p r c =
     (case map_of (ac_running c) p of
        None \<Rightarrow> c
      | Some point \<Rightarrow>
          (case r of
             Failed e \<Rightarrow> settle p (Rejected e) (c\<lparr>ac_running := AList.delete p (ac_running c)\<rparr>)
           | Ok answer \<Rightarrow>
               (case point of
                  AwaitQueue \<Rightarrow>
                    send (map establishExchange (ac_exchanges c))
                      (c\<lparr>ac_running := AList.update p (AwaitExchanges answer) (ac_running c)\<rparr>)
                | AwaitExchanges actualQueueName \<Rightarrow>
                    send (map (establishBind actualQueueName) (ac_binds c))
                      (c\<lparr>ac_running := AList.update p (AwaitBinds actualQueueName) (ac_running c)\<rparr>)
                | AwaitBinds actualQueueName \<Rightarrow>
                    settle p Fulfilled
                      ((send ((case co_prefetch (ac_consumeOptions c) of
                                 None \<Rightarrow> []
                               | Some n \<Rightarrow> if truthy_number n then [Prefetch n] else [])
                              @ [Consume actualQueueName])
                          (c\<lparr>ac_running := AList.delete p (ac_running c)\<rparr>))
                       \<lparr>ac_started := True\<rparr>))))"

text \<open>The reply to \<^verbatim>\<open>basic.consume\<close> stores the consumer tag.\<close>

definition consumeOk :: "string \<Rightarrow> AMQPConsumer \<Rightarrow> AMQPConsumer" where
  "consumeOk consumerTag c = c\<lparr>ac_consumerTag := Some consumerTag\<rparr>"


definition consume :: "AMQPConsumer \<Rightarrow> promise option \<times> AMQPConsumer" where
  "consume c =
     (if \<not> ac_started c
      then (let (p, c') = startConsuming c
            in (Some p, c'\<lparr>ac_consumePromise := Some p\<rparr>))
      else (ac_consumePromise c, c))"

text \<open>
  The legacy JavaScript consumer (lib/AMQPConsumer.js) builds the promise chain and sets
  \<^verbatim>\<open>_started = true\<close> before \<^verbatim>\<open>consume\<close> returns.
\<close>

definition consume_legacy :: "AMQPConsumer \<Rightarrow> promise option \<times> AMQPConsumer" where
  "consume_legacy c =
     (if \<not> ac_started c
      then (let (p, c') = startConsuming c
            in (Some p, c'\<lparr>ac_consumePromise := Some p, ac_started := True\<rparr>))
      else (ac_consumePromise c, c))"










section \<open>AMQPTieredListener (lib/AMQPTieredListener.js)\<close>

text \<open>
  The tiered listener keeps references to objects of its caller, so its objects live in
  a store. A cell is an object or an array of the shapes the listener handles;
  references are addresses. Tier arrays and exchange arrays hold references to their
  elements.
\<close>

type_synonym addr = nat

record Tier =
  t_name :: string
  t_delay :: nat

record TieredRouting =
  rt_deadLetterExchange :: "addr option"
  rt_circular :: "bool option"

record TieredOptions =
  to_queue :: "addr option"
  to_consume :: "addr option"
  to_exchanges :: "addr option"
  to_binds :: "addr option"
  to_routing :: "addr option"
  to_messageHandler :: "nat option"

datatype cell =
    TierObj Tier
  | TierArray "addr list"
  | QueueObj options_object
  | ConsumeObj ConsumeOptions
  | ExchangeObj Exchange
  | ExchangeArray "addr list"
  | BindingArray "Binding list"
  | RoutingObj TieredRouting
  | OptionsObj TieredOptions

type_synonym heap = "cell list"

definition lookup :: "heap \<Rightarrow> addr \<Rightarrow> cell option" where
  "lookup h a = (if a < length h then Some (h ! a) else None)"

definition alloc :: "cell \<Rightarrow> heap \<Rightarrow> addr \<times> heap" where
  "alloc c h = (length h, h @ [c])"

text \<open>
  Reading through a reference. Reading a property of something that is not an object of
  the expected shape is a \<^verbatim>\<open>TypeError\<close>: \<open>None\<close>.
\<close>

definition get_tier :: "heap \<Rightarrow> addr \<Rightarrow> Tier option" where
  "get_tier h a = (case lookup h a of Some (TierObj t) \<Rightarrow> Some t | _ \<Rightarrow> None)"

definition get_tiers :: "heap \<Rightarrow> addr \<Rightarrow> addr list option" where
  "get_tiers h a = (case lookup h a of Some (TierArray ts) \<Rightarrow> Some ts | _ \<Rightarrow> None)"

definition get_queue :: "heap \<Rightarrow> addr \<Rightarrow> options_object option" where
  "get_queue h a = (case lookup h a of Some (QueueObj q) \<Rightarrow> Some q | _ \<Rightarrow> None)"

definition get_consume :: "heap \<Rightarrow> addr \<Rightarrow> ConsumeOptions option" where
  "get_consume h a = (case lookup h a of Some (ConsumeObj c) \<Rightarrow> Some c | _ \<Rightarrow> None)"

definition get_exchange :: "heap \<Rightarrow> addr \<Rightarrow> Exchange option" where
  "get_exchange h a = (case lookup h a of Some (ExchangeObj e) \<Rightarrow> Some e | _ \<Rightarrow> None)"

definition get_exchanges :: "heap \<Rightarrow> addr \<Rightarrow> addr list option" where
  "get_exchanges h a = (case lookup h a of Some (ExchangeArray es) \<Rightarrow> Some es | _ \<Rightarrow> None)"

definition get_binds :: "heap \<Rightarrow> addr \<Rightarrow> Binding list option" where
  "get_binds h a = (case lookup h a of Some (BindingArray bs) \<Rightarrow> Some bs | _ \<Rightarrow> None)"

definition get_routing :: "heap \<Rightarrow> addr \<Rightarrow> TieredRouting option" where
  "get_routing h a = (case lookup h a of Some (RoutingObj r) \<Rightarrow> Some r | _ \<Rightarrow> None)"

definition get_options :: "heap \<Rightarrow> addr \<Rightarrow> TieredOptions option" where
  "get_options h a = (case lookup h a of Some (OptionsObj opts) \<Rightarrow> Some opts | _ \<Rightarrow> None)"

text \<open>\<^verbatim>\<open>x || {...}\<close> for a property holding a reference: a new object only when it is missing.\<close>

definition or_alloc :: "addr option \<Rightarrow> cell \<Rightarrow> heap \<Rightarrow> addr \<times> heap" where
  "or_alloc x d h = (case x of Some a \<Rightarrow> (a, h) | None \<Rightarrow> alloc d h)"

text \<open>
  One closure of \<^verbatim>\<open>consumerConstructors\<close>: the queue name computed when the listener was
  built, the tier object and the tier's index.
\<close>

record tier_closure =
  k_tierQueueName :: string
  k_tier :: addr
  k_tierIndex :: nat

text \<open>
  The variables of the constructor that its closures share, and the constructors
  handed to the \<^verbatim>\<open>AMQPListener\<close>.
\<close>

record TieredListener =
  tl_options :: addr
  tl_messageHandler :: "nat option"
  tl_deadLetterExchange :: addr
  tl_circular :: bool
  tl_tiers :: addr
  tl_exchanges :: addr
  tl_consumerConstructors :: "tier_closure list"

definition createTierQueueConstructor ::
  "heap \<Rightarrow> string \<Rightarrow> addr \<times> nat \<Rightarrow> tier_closure option" where
  "createTierQueueConstructor h queueNameBase ti =
     do {
       tier \<leftarrow> get_tier h (fst ti);
       Some \<lparr>k_tierQueueName = queueNameBase @ ''-'' @ t_name tier,
             k_tier = fst ti,
             k_tierIndex = snd ti\<rparr>
     }"

fun all_some :: "'a option list \<Rightarrow> 'a list option" where
  "all_some [] = Some []"
| "all_some (x # xs) =
     (case x of None \<Rightarrow> None
      | Some v \<Rightarrow> (case all_some xs of None \<Rightarrow> None | Some vs \<Rightarrow> Some (v # vs)))"

text \<open>
  The properties the copy of the options starts with: those of the caller's object, or
  none when the options are omitted.
\<close>

definition shallowCopyOption :: "heap \<Rightarrow> addr option \<Rightarrow> TieredOptions option" where
  "shallowCopyOption h optionsArg =
     (case optionsArg of
        None \<Rightarrow> Some \<lparr>to_queue = None, to_consume = None, to_exchanges = None,
                       to_binds = None, to_routing = None, to_messageHandler = None\<rparr>
      | Some a \<Rightarrow> get_options h a)"

text \<open>
  The constructor, in the order of the source: the shallow copy of the options (or a
  new object when they are omitted), the defaults assigned to the copy, the handler,
  the dead-letter exchange, the flag, the copy of the tier array, the exchange list, one
  closure per tier.
\<close>

definition AMQPTieredListener ::
  "heap \<Rightarrow> string \<Rightarrow> addr \<Rightarrow> addr option \<Rightarrow> (heap \<times> TieredListener) option" where
  "AMQPTieredListener h queueNameBase tiers optionsArg =
     do {
       given \<leftarrow> shallowCopyOption h optionsArg;
       let (copied, h0) = alloc (OptionsObj given) h;
       let (queueRef, h1) = or_alloc (to_queue given) (QueueObj []) h0;
       let (consumeRef, h2) =
             or_alloc (to_consume given) (ConsumeObj \<lparr>co_exclusive = None, co_prefetch = None\<rparr>) h1;
       let (exchangesRef, h3) = or_alloc (to_exchanges given) (ExchangeArray []) h2;
       let (bindsRef, h4) = or_alloc (to_binds given) (BindingArray []) h3;
       let (routingRef, h5) =
             or_alloc (to_routing given)
               (RoutingObj \<lparr>rt_deadLetterExchange = None, rt_circular = None\<rparr>) h4;
       let h6 = h5[copied := OptionsObj (given\<lparr>to_queue := Some queueRef, to_consume := Some consumeRef,
                     to_exchanges := Some exchangesRef, to_binds := Some bindsRef,
                     to_routing := Some routingRef\<rparr>)];
       r \<leftarrow> get_routing h6 routingRef;
       let (deadLetterExchange, h7) =
             or_alloc (rt_deadLetterExchange r)
               (ExchangeObj \<lparr>ex_name = queueNameBase @ ''DLX'', ex_type = Direct,
                              ex_options = Some [(''durable'', OBool True)]\<rparr>) h6;
       let circular = (case rt_circular r of None \<Rightarrow> False | Some b \<Rightarrow> b);
       ts \<leftarrow> get_tiers h7 tiers;
       let (tiersCopy, h8) = alloc (TierArray ts) h7;
       es \<leftarrow> get_exchanges h8 exchangesRef;
       let (exchangesAll, h9) = alloc (ExchangeArray (es @ [deadLetterExchange])) h8;
       ks \<leftarrow> all_some (map (createTierQueueConstructor h9 queueNameBase)
                          (zip ts [0..<length ts]));
       Some (h9, \<lparr>tl_options = copied,
                  tl_messageHandler = to_messageHandler given,
                  tl_deadLetterExchange = deadLetterExchange,
                  tl_circular = circular,
                  tl_tiers = tiersCopy,
                  tl_exchanges = exchangesAll,
                  tl_consumerConstructors = ks\<rparr>)
     }"

text \<open>
  \<^verbatim>\<open>constructConsumer\<close>, run on a later \<^verbatim>\<open>create\<close> event with the store as it is then.
\<close>

definition constructConsumer ::
  "heap \<Rightarrow> TieredListener \<Rightarrow> tier_closure \<Rightarrow> chan \<Rightarrow> AMQPConsumer option" where
  "constructConsumer h l k channel =
     do {
       opts \<leftarrow> get_options h (tl_options l);
       queueOptions \<leftarrow> Option.bind (to_queue opts) (get_queue h);
       ts \<leftarrow> get_tiers h (tl_tiers l);
       deadLetterExchange \<leftarrow> get_exchange h (tl_deadLetterExchange l);
       queueOptions1 \<leftarrow>
         (if int (k_tierIndex k) \<noteq> int (length ts) - 1
          then do {
                 nextTier \<leftarrow> Option.bind (at_index ts (int (k_tierIndex k) + 1)) (get_tier h);
                 Some (AList.update ''deadLetterRoutingKey'' (OStr (t_name nextTier))
                        (AList.update ''deadLetterExchange'' (OStr (ex_name deadLetterExchange))
                           queueOptions))
               }
          else Some queueOptions);
       queueOptions2 \<leftarrow>
         (if int (k_tierIndex k) = int (length ts) - 1 \<and> tl_circular l
          then do {
                 firstTier \<leftarrow> Option.bind (at_index ts 0) (get_tier h);
                 Some (AList.update ''deadLetterRoutingKey'' (OStr (t_name firstTier))
                        (AList.update ''deadLetterExchange'' (OStr (ex_name deadLetterExchange))
                           queueOptions1))
               }
          else Some queueOptions1);
       tier \<leftarrow> get_tier h (k_tier k);
       let queueBinds = [\<lparr>b_exchange = ex_name deadLetterExchange, b_pattern = t_name tier,
                          b_options = None\<rparr>];
       queueBinds' \<leftarrow>
         (if k_tierIndex k = 0
          then do {
                 userBinds \<leftarrow> Option.bind (to_binds opts) (get_binds h);
                 Some (queueBinds @ userBinds)
               }
          else Some queueBinds);
       consumeOptions \<leftarrow> Option.bind (to_consume opts) (get_consume h);
       exchangeRefs \<leftarrow> get_exchanges h (tl_exchanges l);
       exchangeList \<leftarrow> all_some (map (get_exchange h) exchangeRefs);
       Some (AMQPConsumer_new channel (k_tierQueueName k)
               \<lparr>o_queue = Some queueOptions2, o_consume = Some consumeOptions,
                o_exchanges = Some exchangeList, o_binds = Some queueBinds'\<rparr>)
     }"

text \<open>
  The \<^verbatim>\<open>message\<close> handler installed on the consumer: what it does with the message
  once the promise of \<^verbatim>\<open>when.try(messageHandler, message)\<close> has settled.
\<close>

datatype tier_action = AckNow | RejectAfter nat | RequeueAfter nat

definition messageSettled ::
  "heap \<Rightarrow> TieredListener \<Rightarrow> tier_closure \<Rightarrow> outcome \<Rightarrow> tier_action option" where
  "messageSettled h l k handled =
     (case handled of
        Fulfilled \<Rightarrow> Some AckNow
      | Rejected reason \<Rightarrow>
          do {
            ts \<leftarrow> get_tiers h (tl_tiers l);
            tier \<leftarrow> get_tier h (k_tier k);
            Some (if int (k_tierIndex k) \<noteq> int (length ts) - 1 \<or> tl_circular l
                  then RejectAfter (t_delay tier)
                  else RequeueAfter (t_delay tier))
          })"

text \<open>
  The three operations handed out with a message: \<^verbatim>\<open>ack\<close> acknowledges, \<^verbatim>\<open>requeue\<close>
  rejects with requeueing, \<^verbatim>\<open>reject\<close> rejects without. A timer of the given delay runs
  the latter two.
\<close>

definition perform :: "nat \<Rightarrow> tier_action \<Rightarrow> nat \<times> rpc" where
  "perform message a =
     (case a of
        AckNow \<Rightarrow> (0, Ack message)
      | RejectAfter d \<Rightarrow> (d, Reject message False)
      | RequeueAfter d \<Rightarrow> (d, Reject message True))"

section \<open>The tiered listener and the caller's arguments\<close>

text \<open>
  What the caller's options say once the defaults of the constructor are applied, read
  from the caller's store.
\<close>

definition given_queue :: "heap \<Rightarrow> TieredOptions \<Rightarrow> options_object" where
  "given_queue h opts =
     (case Option.bind (to_queue opts) (get_queue h) of None \<Rightarrow> [] | Some q \<Rightarrow> q)"

definition given_consume :: "heap \<Rightarrow> TieredOptions \<Rightarrow> ConsumeOptions" where
  "given_consume h opts =
     (case Option.bind (to_consume opts) (get_consume h) of
        None \<Rightarrow> \<lparr>co_exclusive = None, co_prefetch = None\<rparr>
      | Some c \<Rightarrow> c)"

definition given_binds :: "heap \<Rightarrow> TieredOptions \<Rightarrow> Binding list" where
  "given_binds h opts =
     (case Option.bind (to_binds opts) (get_binds h) of None \<Rightarrow> [] | Some bs \<Rightarrow> bs)"


definition given_exchange_refs :: "heap \<Rightarrow> TieredOptions \<Rightarrow> addr list" where
  "given_exchange_refs h opts =
     (case Option.bind (to_exchanges opts) (get_exchanges h) of None \<Rightarrow> [] | Some refs \<Rightarrow> refs)"

definition given_routing :: "heap \<Rightarrow> TieredOptions \<Rightarrow> TieredRouting" where
  "given_routing h opts =
     (case Option.bind (to_routing opts) (get_routing h) of
        None \<Rightarrow> \<lparr>rt_deadLetterExchange = None, rt_circular = None\<rparr>
      | Some r \<Rightarrow> r)"

definition given_circular :: "heap \<Rightarrow> TieredOptions \<Rightarrow> bool" where
  "given_circular h opts =
     (case rt_circular (given_routing h opts) of None \<Rightarrow> False | Some b \<Rightarrow> b)"

definition given_deadLetterExchange :: "heap \<Rightarrow> string \<Rightarrow> TieredOptions \<Rightarrow> Exchange" where
  "given_deadLetterExchange h queueNameBase opts =
     (case Option.bind (rt_deadLetterExchange (given_routing h opts)) (get_exchange h) of
        None \<Rightarrow> \<lparr>ex_name = queueNameBase @ ''DLX'', ex_type = Direct,
                  ex_options = Some [(''durable'', OBool True)]\<rparr>
      | Some e \<Rightarrow> e)"

definition tier_name :: "heap \<Rightarrow> addr \<Rightarrow> string" where
  "tier_name h a = (case get_tier h a of None \<Rightarrow> [] | Some t \<Rightarrow> t_name t)"

definition tier_delay :: "heap \<Rightarrow> addr \<Rightarrow> nat" where
  "tier_delay h a = (case get_tier h a of None \<Rightarrow> 0 | Some t \<Rightarrow> t_delay t)"

text \<open>
  The arguments have the shapes the documentation gives them: every reference that is
  present leads to an object or array of its kind.
\<close>

definition valid_ref :: "(heap \<Rightarrow> addr \<Rightarrow> 'a option) \<Rightarrow> heap \<Rightarrow> addr option \<Rightarrow> bool" where
  "valid_ref get h x = (case x of None \<Rightarrow> True | Some a \<Rightarrow> get h a \<noteq> None)"

definition valid_options :: "heap \<Rightarrow> TieredOptions \<Rightarrow> bool" where
  "valid_options h opts \<longleftrightarrow>
     valid_ref get_queue h (to_queue opts)
     \<and> valid_ref get_consume h (to_consume opts)
     \<and> valid_ref get_binds h (to_binds opts)
     \<and> (case to_exchanges opts of
          None \<Rightarrow> True
        | Some a \<Rightarrow> (case get_exchanges h a of
                       None \<Rightarrow> False
                     | Some refs \<Rightarrow> list_all (\<lambda>e. get_exchange h e \<noteq> None) refs))
     \<and> (case to_routing opts of
          None \<Rightarrow> True
        | Some a \<Rightarrow> (case get_routing h a of
                       None \<Rightarrow> False
                     | Some r \<Rightarrow> valid_ref get_exchange h (rt_deadLetterExchange r)))"

definition valid_arguments :: "heap \<Rightarrow> addr \<Rightarrow> addr option \<Rightarrow> bool" where
  "valid_arguments h tiers optionsArg \<longleftrightarrow>
     (case get_tiers h tiers of
        None \<Rightarrow> False
      | Some refs \<Rightarrow> list_all (\<lambda>t. get_tier h t \<noteq> None) refs)
     \<and> (case shallowCopyOption h optionsArg of
          None \<Rightarrow> False
        | Some opts \<Rightarrow> valid_options h opts)"


definition given_exchanges :: "heap \<Rightarrow> TieredOptions \<Rightarrow> Exchange list" where
  "given_exchanges h opts = List.map_filter (get_exchange h) (given_exchange_refs h opts)"

text \<open>
  The layout of section 4.6 of the specification for tier \<open>i\<close> of the tiers \<open>refs\<close>:
  the queue options, the bindings, and the consumer made of them.
\<close>

definition layout_queueOptions ::
  "heap \<Rightarrow> string \<Rightarrow> TieredOptions \<Rightarrow> addr list \<Rightarrow> nat \<Rightarrow> options_object" where
  "layout_queueOptions h queueNameBase opts refs i =
     (if i + 1 < length refs
      then AList.update ''deadLetterRoutingKey'' (OStr (tier_name h (refs ! (i + 1))))
             (AList.update ''deadLetterExchange''
                (OStr (ex_name (given_deadLetterExchange h queueNameBase opts)))
                (given_queue h opts))
      else if given_circular h opts
      then AList.update ''deadLetterRoutingKey'' (OStr (tier_name h (refs ! 0)))
             (AList.update ''deadLetterExchange''
                (OStr (ex_name (given_deadLetterExchange h queueNameBase opts)))
                (given_queue h opts))
      else given_queue h opts)"

definition layout_binds ::
  "heap \<Rightarrow> string \<Rightarrow> TieredOptions \<Rightarrow> addr list \<Rightarrow> nat \<Rightarrow> Binding list" where
  "layout_binds h queueNameBase opts refs i =
     \<lparr>b_exchange = ex_name (given_deadLetterExchange h queueNameBase opts),
      b_pattern = tier_name h (refs ! i), b_options = None\<rparr>
     # (if i = 0 then given_binds h opts else [])"

definition layout_consumer ::
  "heap \<Rightarrow> string \<Rightarrow> TieredOptions \<Rightarrow> addr list \<Rightarrow> nat \<Rightarrow> chan \<Rightarrow> AMQPConsumer" where
  "layout_consumer h queueNameBase opts refs i channel =
     AMQPConsumer_new channel (queueNameBase @ ''-'' @ tier_name h (refs ! i))
       \<lparr>o_queue = Some (layout_queueOptions h queueNameBase opts refs i),
        o_consume = Some (given_consume h opts),
        o_exchanges = Some (given_exchanges h opts @ [given_deadLetterExchange h queueNameBase opts]),
        o_binds = Some (layout_binds h queueNameBase opts refs i)\<rparr>"

definition layout_action :: "heap \<Rightarrow> TieredOptions \<Rightarrow> addr list \<Rightarrow> nat \<Rightarrow> outcome \<Rightarrow> tier_action" where
  "layout_action h opts refs i handled =
     (case handled of
        Fulfilled \<Rightarrow> AckNow
      | Rejected reason \<Rightarrow>
          if i + 1 < length refs \<or> given_circular h opts
          then RejectAfter (tier_delay h (refs ! i))
          else RequeueAfter (tier_delay h (refs ! i)))"

text \<open>
  Two relations between an earlier and a later store: the later one holds every cell of
  the earlier one, except perhaps the cell at \<open>n\<close>; the later one holds every cell of
  the earlier one.
\<close>

definition keeps :: "nat \<Rightarrow> heap \<Rightarrow> heap \<Rightarrow> bool" where
  "keeps n h1 h2 \<longleftrightarrow> length h1 \<le> length h2 \<and> (\<forall>a < length h1. a \<noteq> n \<longrightarrow> h2 ! a = h1 ! a)"

definition ext :: "heap \<Rightarrow> heap \<Rightarrow> bool" where
  "ext h1 h2 \<longleftrightarrow> (\<forall>a c. lookup h1 a = Some c \<longrightarrow> lookup h2 a = Some c)"

text \<open>The closure the constructor makes for a tier and its index.\<close>

definition the_closure :: "heap \<Rightarrow> string \<Rightarrow> addr \<times> nat \<Rightarrow> tier_closure" where
  "the_closure h base ti =
     \<lparr>k_tierQueueName = base @ ''-'' @ tier_name h (fst ti), k_tier = fst ti, k_tierIndex = snd ti\<rparr>"

text \<open>
  What \<^verbatim>\<open>constructConsumer\<close> and the message handler read, in a store \<open>hx\<close>, when the
  listener \<open>l\<close> was built in the store \<open>h\<close> from options \<open>given\<close> and tiers \<open>refs\<close>.
\<close>

definition laid_out ::
  "heap \<Rightarrow> string \<Rightarrow> TieredOptions \<Rightarrow> addr list \<Rightarrow> heap \<Rightarrow> TieredListener \<Rightarrow> bool" where
  "laid_out h base given refs hx l \<longleftrightarrow>
     (\<exists>o' qa ca ba.
           lookup hx (tl_options l) = Some (OptionsObj o')
           \<and> to_queue o' = Some qa \<and> lookup hx qa = Some (QueueObj (given_queue h given))
           \<and> to_consume o' = Some ca \<and> lookup hx ca = Some (ConsumeObj (given_consume h given))
           \<and> to_binds o' = Some ba \<and> lookup hx ba = Some (BindingArray (given_binds h given)))
     \<and> lookup hx (tl_deadLetterExchange l)
          = Some (ExchangeObj (given_deadLetterExchange h base given))
     \<and> tl_circular l = given_circular h given
     \<and> tl_messageHandler l = to_messageHandler given
     \<and> lookup hx (tl_tiers l) = Some (TierArray refs)
     \<and> lookup hx (tl_exchanges l)
          = Some (ExchangeArray (given_exchange_refs h given @ [tl_deadLetterExchange l]))
     \<and> tl_consumerConstructors l = map (the_closure h base) (zip refs [0..<length refs])
     \<and> (\<forall>t \<in> set refs. \<exists>tier. lookup h t = Some (TierObj tier) \<and> lookup hx t = Some (TierObj tier))
     \<and> (\<forall>e \<in> set (given_exchange_refs h given).
            \<exists>ex. lookup h e = Some (ExchangeObj ex) \<and> lookup hx e = Some (ExchangeObj ex))"

text \<open>
  The store and the listener the constructor returns: the copies are new cells, the
  caller's cells are untouched.
\<close>

definition built_as ::
  "heap \<Rightarrow> string \<Rightarrow> TieredOptions \<Rightarrow> addr list \<Rightarrow> heap \<Rightarrow> TieredListener \<Rightarrow> bool" where
  "built_as h base given refs h' l \<longleftrightarrow>
     length h \<le> tl_options l \<and> length h \<le> tl_tiers l \<and> length h \<le> tl_exchanges l
     \<and> ext h h' \<and> laid_out h base given refs h' l"

text \<open>
  The store of examples/tiered-listener.example.js at the call of the constructor: the
  three tiers, their array (cell 3), the exchange, the bindings, the consume options, the
  routing object and the options object (cell 9).
\<close>

definition example_store :: heap where
  "example_store =
     [TierObj \<lparr>t_name = ''fast'', t_delay = 500\<rparr>,
      TierObj \<lparr>t_name = ''medium'', t_delay = 2000\<rparr>,
      TierObj \<lparr>t_name = ''slow'', t_delay = 10000\<rparr>,
      TierArray [0, 1, 2],
      ExchangeObj \<lparr>ex_name = ''Events'', ex_type = Topic,
                    ex_options = Some [(''durable'', OBool True)]\<rparr>,
      ExchangeArray [4],
      BindingArray [\<lparr>b_exchange = ''Events'', b_pattern = ''#'', b_options = None\<rparr>],
      ConsumeObj \<lparr>co_exclusive = None, co_prefetch = Some (Num 10)\<rparr>,
      RoutingObj \<lparr>rt_deadLetterExchange = None, rt_circular = Some False\<rparr>,
      OptionsObj \<lparr>to_queue = None, to_consume = Some 7, to_exchanges = Some 5,
                   to_binds = Some 6, to_routing = Some 8, to_messageHandler = Some 0\<rparr>]"

definition example_options :: TieredOptions where
  "example_options =
     \<lparr>to_queue = None, to_consume = Some 7, to_exchanges = Some 5,
      to_binds = Some 6, to_routing = Some 8, to_messageHandler = Some 0\<rparr>"

text \<open>
  A store with a single tier (its array is cell 1) and options (cell 3) whose queue
  options (cell 2) name a dead-letter exchange of the caller's own.
\<close>

definition parking_store :: heap where
  "parking_store =
     [TierObj \<lparr>t_name = ''only'', t_delay = 100\<rparr>,
      TierArray [0],
      QueueObj [(''deadLetterExchange'', OStr ''parking'')],
      OptionsObj \<lparr>to_queue = Some 2, to_consume = None, to_exchanges = None,
                   to_binds = None, to_routing = None, to_messageHandler = None\<rparr>]"

section \<open>Properties of the connector\<close>

lemma indexOf_ge: "- 1 \<le> indexOf xs x"
  by (induction xs) (auto simp: Let_def)

lemma indexOf_lt: "indexOf xs x < int (length xs)"
  by (induction xs) (auto simp: Let_def)

lemma indexOf_neg_iff: "indexOf xs x < 0 \<longleftrightarrow> x \<notin> set xs"
proof (induction xs)
  case Nil
  then show ?case by simp
next
  case (Cons y ys)
  from indexOf_ge [of ys x] Cons.IH show ?case
    by (auto simp: Let_def)
qed

lemma indexOf_nth: "x \<in> set xs \<Longrightarrow> xs ! nat (indexOf xs x) = x"
proof (induction xs)
  case Nil
  then show ?case by simp
next
  case (Cons y ys)
  show ?case
  proof (cases "y = x")
    case True
    then show ?thesis by simp
  next
    case False
    with Cons.prems have mem: "x \<in> set ys" by simp
    then have nonneg: "0 \<le> indexOf ys x"
      using indexOf_neg_iff [of ys x] by simp
    then have "nat (indexOf ys x + 1) = Suc (nat (indexOf ys x))" by simp
    with False nonneg Cons.IH [OF mem] show ?thesis by (simp add: Let_def)
  qed
qed

text \<open>
  What the selection does for every list and every truthy last URI: round-robin on the
  position of the first occurrence.
\<close>

lemma selectServerURI_round_robin:
  assumes "uris \<noteq> []"
  shows "selectServerURI uris None = Some (hd uris)"
    and "u \<noteq> [] \<Longrightarrow> u \<notin> set uris \<Longrightarrow> selectServerURI uris (Some u) = Some (hd uris)"
    and "u \<noteq> [] \<Longrightarrow> u \<in> set uris \<Longrightarrow> indexOf uris u = int (length uris) - 1 \<Longrightarrow>
           selectServerURI uris (Some u) = Some (hd uris)"
    and "u \<noteq> [] \<Longrightarrow> u \<in> set uris \<Longrightarrow> indexOf uris u < int (length uris) - 1 \<Longrightarrow>
           selectServerURI uris (Some u) = Some (uris ! (nat (indexOf uris u) + 1))"
proof -
  from assms have hd0: "at_index uris 0 = Some (hd uris)"
    by (cases uris) (simp_all add: at_index_def)
  show "selectServerURI uris None = Some (hd uris)"
    by (simp add: selectServerURI_def hd0)
  show "u \<noteq> [] \<Longrightarrow> u \<notin> set uris \<Longrightarrow> selectServerURI uris (Some u) = Some (hd uris)"
    using indexOf_neg_iff [of uris u]
    by (simp add: selectServerURI_def truthy_string_def hd0 Let_def)
  show "u \<noteq> [] \<Longrightarrow> u \<in> set uris \<Longrightarrow> indexOf uris u = int (length uris) - 1 \<Longrightarrow>
           selectServerURI uris (Some u) = Some (hd uris)"
    using indexOf_neg_iff [of uris u]
    by (simp add: selectServerURI_def truthy_string_def hd0 Let_def)
  show "u \<noteq> [] \<Longrightarrow> u \<in> set uris \<Longrightarrow> indexOf uris u < int (length uris) - 1 \<Longrightarrow>
           selectServerURI uris (Some u) = Some (uris ! (nat (indexOf uris u) + 1))"
  proof -
    assume a: "u \<noteq> []" "u \<in> set uris" "indexOf uris u < int (length uris) - 1"
    from a(2) have nonneg: "0 \<le> indexOf uris u"
      using indexOf_neg_iff [of uris u] by simp
    then have "nat (indexOf uris u + 1) = nat (indexOf uris u) + 1" by simp
    with a nonneg show ?thesis
      by (simp add: selectServerURI_def truthy_string_def Let_def at_index_def)
  qed
qed

text \<open>
  Claim C5. Round-robin selection: a last used URI that is an element of the list and not
  its last element is followed by the element after it. The list
  \<^verbatim>\<open>["", "amqp://b"]\<close> with last used URI \<^verbatim>\<open>""\<close> is such a case: the URI is at
  index 0 of 2, so the claim asks for index 1. The code answers with index 0, because
  the empty string is falsy; the legacy connector answers with index 1.
\<close>

theorem selectServerURI_empty_string_stuck:
  "selectServerURI ['''', ''amqp://b''] (Some '''') = Some ''''
   \<and> indexOf ['''', ''amqp://b''] '''' = 0
   \<and> at_index ['''', ''amqp://b''] (indexOf ['''', ''amqp://b''] '''' + 1) = Some ''amqp://b''
   \<and> selectServerURI_legacy ['''', ''amqp://b''] (Some '''') = Some ''amqp://b''"
  by (simp add: selectServerURI_def selectServerURI_legacy_def truthy_string_def at_index_def)

text \<open>
  Claim C8 asks that an empty URI list be rejected by the constructor. The constructor
  accepts it.
\<close>

theorem AMQPConnector_new_empty_accepted:
  "\<not> isl (AMQPConnector_new (Many []) None)"
  by (simp add: AMQPConnector_new_def Let_def)

text \<open>
  Claim C8, as the code has it: the constructor validates nothing. Every argument,
  the empty list included, yields a connector holding exactly the URIs passed, and on
  the empty list the URI selection yields \<^verbatim>\<open>undefined\<close> whatever the last URI was.
\<close>

theorem AMQPConnector_new_never_rejects:
  "(\<exists>c. AMQPConnector_new arg opts = Inr c
        \<and> serverURIs c = (case arg of Many us \<Rightarrow> us | Single u \<Rightarrow> [u])
        \<and> cs_lastUsedURI (connector_state c) = None)
   \<and> (\<exists>c. AMQPConnector_new (Many []) opts = Inr c
        \<and> serverURIs c = []
        \<and> selectServerURI (serverURIs c) lastUsed = None)"
  by (simp add: AMQPConnector_new_def selectServerURI_def at_index_def Let_def)

section \<open>Properties of the publish stream\<close>

text \<open>
  Claim C9. With the options omitted, or with \<^verbatim>\<open>highWaterMark\<close> missing, zero or
  \<^verbatim>\<open>NaN\<close>, the high-water mark handed to the stream is 8; a non-zero number is
  handed over as it is; and no argument makes the high-water mark zero.
\<close>

theorem highWaterMark_default:
  "w_highWaterMark (ps_super (AMQPPublishStream_new ch None)) = Num 8
   \<and> (\<forall>opts. highWaterMark opts \<in> {None, Some (Num 0), Some NaN} \<longrightarrow>
         w_highWaterMark (ps_super (AMQPPublishStream_new ch (Some opts))) = Num 8)
   \<and> (\<forall>opts n. highWaterMark opts = Some (Num n) \<and> n \<noteq> 0 \<longrightarrow>
         w_highWaterMark (ps_super (AMQPPublishStream_new ch (Some opts))) = Num n)
   \<and> (\<forall>given. w_highWaterMark (ps_super (AMQPPublishStream_new ch given)) \<noteq> Num 0)"
  by (auto simp: AMQPPublishStream_new_def or_default_def truthy_number_def
           split: option.splits number.splits)

theorem highWaterMark_default_witness:
  "w_highWaterMark (ps_super (AMQPPublishStream_new (\<lambda>ex rk c opts. None)
        (Some \<lparr>highWaterMark = Some (Num 0)\<rparr>))) = Num 8
   \<and> w_highWaterMark (ps_super (AMQPPublishStream_new (\<lambda>ex rk c opts. None)
        (Some \<lparr>highWaterMark = Some NaN\<rparr>))) = Num 8
   \<and> w_highWaterMark (ps_super (AMQPPublishStream_new (\<lambda>ex rk c opts. None)
        (Some \<lparr>highWaterMark = Some (Num 32)\<rparr>))) = Num 32"
proof -
  let ?ch = "(\<lambda>ex rk c opts. None) :: ConfirmChannel"
  note h = highWaterMark_default [of ?ch]
  from h have zero:
    "w_highWaterMark (ps_super (AMQPPublishStream_new ?ch
        (Some \<lparr>highWaterMark = Some (Num 0)\<rparr>))) = Num 8"
    by simp
  from h have nan:
    "w_highWaterMark (ps_super (AMQPPublishStream_new ?ch
        (Some \<lparr>highWaterMark = Some NaN\<rparr>))) = Num 8"
    by simp
  from h have other:
    "w_highWaterMark (ps_super (AMQPPublishStream_new ?ch
        (Some \<lparr>highWaterMark = Some (Num 32)\<rparr>))) = Num 32"
    by simp
  from zero nan other show ?thesis by simp
qed

lemma verify_message_exchange:
  "verify_message c = Inr v \<Longrightarrow>
   \<exists>m. c = Object m \<and> v_exchange v = or_default truthy_string (exchange m) []
       \<and> routingKey m = Some (v_routingKey v) \<and> v_routingKey v \<noteq> []"
  by (auto simp: verify_message_def as_message_def truthy_string_def Let_def
           split: chunk.splits sum.splits option.splits if_splits)

lemma verify_message_rejects:
  "as_message c = None \<or> (\<exists>m. c = Object m \<and> routingKey m \<in> {None, Some []}) \<Longrightarrow>
   \<exists>e. verify_message c = Inl e"
  by (auto simp: verify_message_def as_message_def truthy_string_def Let_def
           split: chunk.splits sum.splits option.splits)

text \<open>
  Claim C7. A chunk that is not an object, or whose routing key is missing or empty,
  gets the write callback with an error before \<^verbatim>\<open>_write\<close> returns, and
  \<^verbatim>\<open>channel.publish\<close> is not called. Whenever \<^verbatim>\<open>channel.publish\<close> is called, the chunk
  is an object with a non-empty routing key, which is published unchanged, and the
  exchange published to is the empty string when the field is missing or empty and the
  field otherwise. A well-formed message is published first thing.
\<close>

theorem write_validation:
  "(as_message c = None \<or> (\<exists>m. c = Object m \<and> routingKey m \<in> {None, Some []}) \<longrightarrow>
      (\<exists>e. write_message stream c = [WriteCallback (Some e)]) \<and> \<not> list_ex is_publish (write_message stream c))
   \<and> (\<forall>ex rk buf opts. Publish ex rk buf opts \<in> set (write_message stream c) \<longrightarrow>
        (\<exists>m. c = Object m \<and> routingKey m = Some rk \<and> rk \<noteq> []
           \<and> ex = (if exchange m \<in> {None, Some []} then [] else the (exchange m))))
   \<and> (\<forall>m k body. c = Object m \<and> routingKey m = Some k \<and> k \<noteq> [] \<and> content m = Some body \<longrightarrow>
        (\<exists>buf opts. hd (write_message stream c) =
           Publish (if exchange m \<in> {None, Some []} then [] else the (exchange m)) k buf opts))"
proof (intro conjI impI allI)
  assume bad: "as_message c = None \<or> (\<exists>m. c = Object m \<and> routingKey m \<in> {None, Some []})"
  then obtain e where e: "verify_message c = Inl e"
    using verify_message_rejects by blast
  then show "\<exists>e. write_message stream c = [WriteCallback (Some e)]"
    by (simp add: write_message_def)
  from e show "\<not> list_ex is_publish (write_message stream c)"
    by (simp add: write_message_def)
next
  fix ex rk buf opts
  assume pub: "Publish ex rk buf opts \<in> set (write_message stream c)"
  then obtain v where v: "verify_message c = Inr v"
    by (cases "verify_message c") (auto simp: write_message_def)
  with pub have eq: "ex = v_exchange v" "rk = v_routingKey v"
    by (auto simp: write_message_def split: option.splits)
  from verify_message_exchange [OF v] obtain m where
    m: "c = Object m" "v_exchange v = or_default truthy_string (exchange m) []"
       "routingKey m = Some (v_routingKey v)" "v_routingKey v \<noteq> []"
    by blast
  from m(2) have "v_exchange v = (if exchange m \<in> {None, Some []} then [] else the (exchange m))"
    by (auto simp: or_default_def truthy_string_def split: option.splits)
  with m eq show "\<exists>m. c = Object m \<and> routingKey m = Some rk \<and> rk \<noteq> []
           \<and> ex = (if exchange m \<in> {None, Some []} then [] else the (exchange m))"
    by blast
next
  fix m k body
  assume ok: "c = Object m \<and> routingKey m = Some k \<and> k \<noteq> [] \<and> content m = Some body"
  then show "\<exists>buf opts. hd (write_message stream c) =
           Publish (if exchange m \<in> {None, Some []} then [] else the (exchange m)) k buf opts"
    by (cases body)
       (auto simp: write_message_def verify_message_def as_message_def to_buffer_def or_default_def
                   truthy_string_def Let_def split: option.splits)
qed

theorem write_validation_witness:
  "(\<exists>e. write_message (AMQPPublishStream_new (\<lambda>ex rk c opts. None) None) (String ''hello'')
          = [WriteCallback (Some e)])
   \<and> (\<exists>e. write_message (AMQPPublishStream_new (\<lambda>ex rk c opts. None) None)
          (Object \<lparr>exchange = Some ''X'', routingKey = Some [], content = Some (Text ''m''),
                   options = None, callback = None\<rparr>) = [WriteCallback (Some e)])
   \<and> (\<exists>buf opts. hd (write_message (AMQPPublishStream_new (\<lambda>ex rk c opts. None) None)
          (Object \<lparr>exchange = None, routingKey = Some ''k'', content = Some (Text ''m''),
                   options = None, callback = None\<rparr>)) = Publish [] ''k'' buf opts)"
proof -
  let ?s = "AMQPPublishStream_new (\<lambda>ex rk c opts. None) None"
  let ?bad = "\<lparr>exchange = Some ''X'', routingKey = Some [], content = Some (Text ''m''),
               options = None, callback = None\<rparr>"
  let ?good = "\<lparr>exchange = None, routingKey = Some ''k'', content = Some (Text ''m''),
                options = None, callback = None\<rparr>"
  have a: "\<exists>e. write_message ?s (String ''hello'') = [WriteCallback (Some e)]"
    using write_validation [of "String ''hello''" ?s] by (simp add: as_message_def)
  have b: "\<exists>e. write_message ?s (Object ?bad) = [WriteCallback (Some e)]"
    using write_validation [of "Object ?bad" ?s] by simp
  have c: "\<exists>buf opts. hd (write_message ?s (Object ?good)) = Publish [] ''k'' buf opts"
    using write_validation [of "Object ?good" ?s] by simp
  from a b c show ?thesis by blast
qed

section \<open>Properties of the channel manager\<close>










section \<open>Properties of the consumer\<close>

lemma consume_when_started: "ac_started c \<Longrightarrow> consume c = (ac_consumePromise c, c)"
  by (simp add: consume_def)

lemma consume_legacy_twice:
  "\<not> ac_started c \<Longrightarrow>
   fst (consume_legacy (snd (consume_legacy c))) = fst (consume_legacy c)
   \<and> snd (consume_legacy (snd (consume_legacy c))) = snd (consume_legacy c)"
  by (simp add: consume_legacy_def startConsuming_def Let_def split: prod.splits)

text \<open>
  Claim C4. A second \<^verbatim>\<open>consume()\<close> before the first call's promise has resolved is
  to start nothing and to return the same promise. On a new consumer of queue \<^verbatim>\<open>q\<close> the
  first call returns promise 0 and the second returns promise 1, and each call has sent
  its own \<^verbatim>\<open>assertQueue\<close>. When the awaits of both invocations have been answered, two
  \<^verbatim>\<open>basic.consume\<close> RPCs have gone out: two subscriptions. The legacy consumer returns
  promise 0 both times and asserts the queue once.
\<close>

theorem consume_twice_starts_twice:
  "fst (consume (AMQPConsumer_new 0 ''q''
      \<lparr>o_queue = None, o_consume = None, o_exchanges = None, o_binds = None\<rparr>)) = Some 0
   \<and> fst (consume (snd (consume (AMQPConsumer_new 0 ''q''
      \<lparr>o_queue = None, o_consume = None, o_exchanges = None, o_binds = None\<rparr>)))) = Some 1
   \<and> ac_rpcs (snd (consume (snd (consume (AMQPConsumer_new 0 ''q''
      \<lparr>o_queue = None, o_consume = None, o_exchanges = None, o_binds = None\<rparr>)))))
       = [AssertQueue ''q'' [], AssertQueue ''q'' []]
   \<and> ac_rpcs
       (resumeStartConsuming 1 (Ok []) (resumeStartConsuming 1 (Ok []) (resumeStartConsuming 1 (Ok ''q'')
       (resumeStartConsuming 0 (Ok []) (resumeStartConsuming 0 (Ok []) (resumeStartConsuming 0 (Ok ''q'')
         (snd (consume (snd (consume (AMQPConsumer_new 0 ''q''
            \<lparr>o_queue = None, o_consume = None, o_exchanges = None, o_binds = None\<rparr>)))))))))))
       = [AssertQueue ''q'' [], AssertQueue ''q'' [], Consume ''q'', Consume ''q'']
   \<and> fst (consume_legacy (snd (consume_legacy (AMQPConsumer_new 0 ''q''
      \<lparr>o_queue = None, o_consume = None, o_exchanges = None, o_binds = None\<rparr>)))) = Some 0
   \<and> ac_rpcs (snd (consume_legacy (snd (consume_legacy (AMQPConsumer_new 0 ''q''
      \<lparr>o_queue = None, o_consume = None, o_exchanges = None, o_binds = None\<rparr>)))))
       = [AssertQueue ''q'' []]"
  by (simp add: consume_def consume_legacy_def startConsuming_def AMQPConsumer_new_def
        resumeStartConsuming_def send_def settle_def Let_def)





section \<open>Properties of the tiered listener\<close>


lemma keeps_refl: "keeps n h h"
  by (simp add: keeps_def)

lemma keeps_trans: "keeps n h1 h2 \<Longrightarrow> keeps n h2 h3 \<Longrightarrow> keeps n h1 h3"
  by (auto simp: keeps_def)

lemma keeps_append: "keeps n h (h @ cs)"
  by (simp add: keeps_def nth_append)

lemma keeps_update: "keeps n h (h[n := c])"
  by (simp add: keeps_def)

lemma keeps_or_alloc: "or_alloc x d h = (a, h1) \<Longrightarrow> keeps n h h1"
  by (auto simp: or_alloc_def alloc_def keeps_append keeps_refl split: option.splits)

lemma keeps_lookup: "keeps n h1 h2 \<Longrightarrow> a \<noteq> n \<Longrightarrow> lookup h1 a = Some c \<Longrightarrow> lookup h2 a = Some c"
  by (auto simp: keeps_def lookup_def split: if_splits)

lemma lookup_less: "lookup h a = Some c \<Longrightarrow> a < length h"
  by (simp add: lookup_def split: if_splits)

lemma get_tier_iff: "get_tier h a = Some t \<longleftrightarrow> lookup h a = Some (TierObj t)"
  by (auto simp: get_tier_def split: option.splits cell.splits)

lemma get_tiers_iff: "get_tiers h a = Some ts \<longleftrightarrow> lookup h a = Some (TierArray ts)"
  by (auto simp: get_tiers_def split: option.splits cell.splits)

lemma get_queue_iff: "get_queue h a = Some q \<longleftrightarrow> lookup h a = Some (QueueObj q)"
  by (auto simp: get_queue_def split: option.splits cell.splits)

lemma get_consume_iff: "get_consume h a = Some c \<longleftrightarrow> lookup h a = Some (ConsumeObj c)"
  by (auto simp: get_consume_def split: option.splits cell.splits)

lemma get_exchange_iff: "get_exchange h a = Some e \<longleftrightarrow> lookup h a = Some (ExchangeObj e)"
  by (auto simp: get_exchange_def split: option.splits cell.splits)

lemma get_exchanges_iff: "get_exchanges h a = Some es \<longleftrightarrow> lookup h a = Some (ExchangeArray es)"
  by (auto simp: get_exchanges_def split: option.splits cell.splits)

lemma get_binds_iff: "get_binds h a = Some bs \<longleftrightarrow> lookup h a = Some (BindingArray bs)"
  by (auto simp: get_binds_def split: option.splits cell.splits)

lemma get_routing_iff: "get_routing h a = Some r \<longleftrightarrow> lookup h a = Some (RoutingObj r)"
  by (auto simp: get_routing_def split: option.splits cell.splits)

lemma get_options_iff: "get_options h a = Some opts \<longleftrightarrow> lookup h a = Some (OptionsObj opts)"
  by (auto simp: get_options_def split: option.splits cell.splits)

lemmas get_iff = get_tier_iff get_tiers_iff get_queue_iff get_consume_iff get_exchange_iff
  get_exchanges_iff get_binds_iff get_routing_iff get_options_iff

lemma or_alloc_final:
  assumes oa: "or_alloc x d hk = (a, hk1)"
      and n: "length h < length hk"
      and k0: "keeps (length h) h hk"
      and k1: "keeps (length h) hk1 hfinal"
      and user: "\<And>g. x = Some g \<Longrightarrow> lookup h g = Some c"
      and dflt: "x = None \<Longrightarrow> c = d"
  shows "lookup hfinal a = Some c \<and> a \<noteq> length h"
proof (cases x)
  case None
  with oa have a: "a = length hk" "hk1 = hk @ [d]"
    by (simp_all add: or_alloc_def alloc_def)
  then have "lookup hk1 a = Some d"
    by (simp add: lookup_def)
  moreover from a n have "a \<noteq> length h" by simp
  ultimately show ?thesis
    using keeps_lookup [OF k1] dflt [OF None] by simp
next
  case (Some g)
  with oa have a: "a = g" "hk1 = hk"
    by (simp_all add: or_alloc_def)
  from user [OF Some] have l: "lookup h g = Some c" .
  then have ne: "g \<noteq> length h"
    using lookup_less by fastforce
  from keeps_lookup [OF k0 ne l] have "lookup hk g = Some c" .
  with a ne keeps_lookup [OF k1] show ?thesis by simp
qed

lemma all_some_map:
  "(\<And>x. x \<in> set xs \<Longrightarrow> f x = Some (g x)) \<Longrightarrow> all_some (map f xs) = Some (map g xs)"
  by (induction xs) simp_all


lemma all_some_append:
  "all_some (map f xs) = Some vs \<Longrightarrow> f y = Some v \<Longrightarrow> all_some (map f (xs @ [y])) = Some (vs @ [v])"
  by (induction xs arbitrary: vs) (auto split: option.splits)

lemma ext_append: "ext h (h @ cs)"
  by (auto simp: ext_def lookup_def nth_append split: if_splits)

lemma ext_or_alloc: "or_alloc x d h = (a, h1) \<Longrightarrow> ext h h1"
  by (cases x) (auto simp: or_alloc_def alloc_def ext_def lookup_def nth_append split: if_splits)

lemma extD: "ext h1 h2 \<Longrightarrow> lookup h1 a = Some c \<Longrightarrow> lookup h2 a = Some c"
  by (simp add: ext_def)

lemma keeps_length: "keeps n h1 h2 \<Longrightarrow> length h1 \<le> length h2"
  by (simp add: keeps_def)

lemma constructor_valid:
  assumes given: "shallowCopyOption h oa = Some given"
      and valid: "valid_options h given"
      and tiers: "get_tiers h ta = Some refs"
      and objs: "list_all (\<lambda>t. get_tier h t \<noteq> None) refs"
  shows "\<exists>h' l. AMQPTieredListener h base ta oa = Some (h', l) \<and> built_as h base given refs h' l"
proof -
  let ?n = "length h"
  let ?h0 = "h @ [OptionsObj given]"
  let ?dq = "QueueObj []"
  let ?dc = "ConsumeObj \<lparr>co_exclusive = None, co_prefetch = None\<rparr>"
  let ?de = "ExchangeArray []"
  let ?db = "BindingArray []"
  let ?dr = "RoutingObj \<lparr>rt_deadLetterExchange = None, rt_circular = None\<rparr>"
  let ?dd = "ExchangeObj \<lparr>ex_name = base @ ''DLX'', ex_type = Direct,
                          ex_options = Some [(''durable'', OBool True)]\<rparr>"
  obtain qa h1 where q: "or_alloc (to_queue given) ?dq ?h0 = (qa, h1)" by fastforce
  obtain ca h2 where c: "or_alloc (to_consume given) ?dc h1 = (ca, h2)" by fastforce
  obtain ea h3 where e: "or_alloc (to_exchanges given) ?de h2 = (ea, h3)" by fastforce
  obtain ba h4 where b: "or_alloc (to_binds given) ?db h3 = (ba, h4)" by fastforce
  obtain ra h5 where r: "or_alloc (to_routing given) ?dr h4 = (ra, h5)" by fastforce
  let ?o' = "given\<lparr>to_queue := Some qa, to_consume := Some ca, to_exchanges := Some ea,
                    to_binds := Some ba, to_routing := Some ra\<rparr>"
  let ?h6 = "h5[?n := OptionsObj ?o']"
  let ?r = "given_routing h given"
  obtain da h7 where d: "or_alloc (rt_deadLetterExchange ?r) ?dd ?h6 = (da, h7)" by fastforce
  let ?h8 = "h7 @ [TierArray refs]"
  let ?es = "given_exchange_refs h given"
  let ?h' = "?h8 @ [ExchangeArray (?es @ [da])]"
  let ?l = "\<lparr>tl_options = ?n, tl_messageHandler = to_messageHandler given,
            tl_deadLetterExchange = da, tl_circular = given_circular h given,
            tl_tiers = length h7, tl_exchanges = Suc (length h7),
            tl_consumerConstructors = map (the_closure h base) (zip refs [0..<length refs])\<rparr>"
  \<comment> \<open>every stage keeps what the stages before it hold, the copy of the options apart\<close>
  have k0: "keeps ?n h ?h0" by (rule keeps_append)
  have k1: "keeps ?n ?h0 h1" by (rule keeps_or_alloc [OF q])
  have k2: "keeps ?n h1 h2" by (rule keeps_or_alloc [OF c])
  have k3: "keeps ?n h2 h3" by (rule keeps_or_alloc [OF e])
  have k4: "keeps ?n h3 h4" by (rule keeps_or_alloc [OF b])
  have k5: "keeps ?n h4 h5" by (rule keeps_or_alloc [OF r])
  have k6: "keeps ?n h5 ?h6" by (rule keeps_update)
  have k7: "keeps ?n ?h6 h7" by (rule keeps_or_alloc [OF d])
  have k8: "keeps ?n h7 ?h'" using keeps_append [of ?n h7 "[TierArray refs, ExchangeArray (?es @ [da])]"] by simp
  have k78: "keeps ?n h7 ?h8" by (rule keeps_append)
  note kt = keeps_trans
  have h_h1: "keeps ?n h h1" by (rule kt [OF k0 k1])
  have h_h2: "keeps ?n h h2" by (rule kt [OF h_h1 k2])
  have h_h3: "keeps ?n h h3" by (rule kt [OF h_h2 k3])
  have h_h4: "keeps ?n h h4" by (rule kt [OF h_h3 k4])
  have h_h5: "keeps ?n h h5" by (rule kt [OF h_h4 k5])
  have h_h6: "keeps ?n h ?h6" by (rule kt [OF h_h5 k6])
  have h_h7: "keeps ?n h h7" by (rule kt [OF h_h6 k7])
  have h_h': "keeps ?n h ?h'" by (rule kt [OF h_h7 k8])
  have h6_h': "keeps ?n ?h6 ?h'" by (rule kt [OF k7 k8])
  have h5_h': "keeps ?n h5 ?h'" by (rule kt [OF k6 h6_h'])
  have h4_h': "keeps ?n h4 ?h'" by (rule kt [OF k5 h5_h'])
  have h3_h': "keeps ?n h3 ?h'" by (rule kt [OF k4 h4_h'])
  have h2_h': "keeps ?n h2 ?h'" by (rule kt [OF k3 h3_h'])
  have h1_h': "keeps ?n h1 ?h'" by (rule kt [OF k2 h2_h'])
  have len0: "?n < length ?h0" by simp
  have len1: "?n < length h1" using keeps_length [OF k1] by simp
  have len2: "?n < length h2" using keeps_length [OF k2] len1 by simp
  have len3: "?n < length h3" using keeps_length [OF k3] len2 by simp
  have len4: "?n < length h4" using keeps_length [OF k4] len3 by simp
  have len5: "?n < length h5" using keeps_length [OF k5] len4 by simp
  have len6: "?n < length ?h6" using len5 by simp
  have len7: "?n < length h7" using keeps_length [OF k7] len6 by simp
  \<comment> \<open>what the references of the copy lead to\<close>
  from valid have "\<And>g. to_queue given = Some g \<Longrightarrow> get_queue h g = Some (given_queue h given)"
    by (auto simp: valid_options_def valid_ref_def given_queue_def)
  then have vq: "\<And>g. to_queue given = Some g \<Longrightarrow> lookup h g = Some (QueueObj (given_queue h given))"
    by (simp add: get_iff)
  have fq: "lookup ?h' qa = Some (QueueObj (given_queue h given)) \<and> qa \<noteq> ?n"
    by (rule or_alloc_final [OF q len0 k0 h1_h' vq]) (simp_all add: given_queue_def)
  from valid have "\<And>g. to_consume given = Some g \<Longrightarrow> get_consume h g = Some (given_consume h given)"
    by (auto simp: valid_options_def valid_ref_def given_consume_def)
  then have vc: "\<And>g. to_consume given = Some g \<Longrightarrow> lookup h g = Some (ConsumeObj (given_consume h given))"
    by (simp add: get_iff)
  have fc: "lookup ?h' ca = Some (ConsumeObj (given_consume h given)) \<and> ca \<noteq> ?n"
    by (rule or_alloc_final [OF c len1 h_h1 h2_h' vc]) (simp_all add: given_consume_def)
  from valid have "\<And>g. to_exchanges given = Some g \<Longrightarrow> get_exchanges h g = Some ?es"
    by (auto simp: valid_options_def given_exchange_refs_def split: option.splits)
  then have ve: "\<And>g. to_exchanges given = Some g \<Longrightarrow> lookup h g = Some (ExchangeArray ?es)"
    by (simp add: get_iff)
  have fe8: "lookup ?h8 ea = Some (ExchangeArray ?es) \<and> ea \<noteq> ?n"
    by (rule or_alloc_final [OF e len2 h_h2 kt [OF k4 kt [OF k5 kt [OF k6 kt [OF k7 k78]]]] ve])
       (simp_all add: given_exchange_refs_def)
  from valid have "\<And>g. to_binds given = Some g \<Longrightarrow> get_binds h g = Some (given_binds h given)"
    by (auto simp: valid_options_def valid_ref_def given_binds_def)
  then have vb: "\<And>g. to_binds given = Some g \<Longrightarrow> lookup h g = Some (BindingArray (given_binds h given))"
    by (simp add: get_iff)
  have fb: "lookup ?h' ba = Some (BindingArray (given_binds h given)) \<and> ba \<noteq> ?n"
    by (rule or_alloc_final [OF b len3 h_h3 h4_h' vb]) (simp_all add: given_binds_def)
  from valid have vr': "\<And>g. to_routing given = Some g \<Longrightarrow> get_routing h g = Some ?r"
    by (auto simp: valid_options_def given_routing_def split: option.splits)
  then have vr: "\<And>g. to_routing given = Some g \<Longrightarrow> lookup h g = Some (RoutingObj ?r)"
    by (simp add: get_iff)
  have fr6: "lookup ?h6 ra = Some (RoutingObj ?r) \<and> ra \<noteq> ?n"
    by (rule or_alloc_final [OF r len4 h_h4 k6 vr]) (simp_all add: given_routing_def)
  from valid have "\<And>g. rt_deadLetterExchange ?r = Some g \<Longrightarrow>
        get_exchange h g = Some (given_deadLetterExchange h base given)"
    by (auto simp: valid_options_def valid_ref_def given_routing_def given_deadLetterExchange_def
          split: option.splits)
  then have vd: "\<And>g. rt_deadLetterExchange ?r = Some g \<Longrightarrow>
        lookup h g = Some (ExchangeObj (given_deadLetterExchange h base given))"
    by (simp add: get_iff)
  have fd: "lookup ?h' da = Some (ExchangeObj (given_deadLetterExchange h base given)) \<and> da \<noteq> ?n"
    by (rule or_alloc_final [OF d len6 h_h6 k8 vd]) (simp_all add: given_deadLetterExchange_def)
  \<comment> \<open>the tiers\<close>
  from tiers have t0: "lookup h ta = Some (TierArray refs)" by (simp add: get_iff)
  then have ta_n: "ta \<noteq> ?n" using lookup_less by fastforce
  have t7: "get_tiers h7 ta = Some refs"
    using keeps_lookup [OF h_h7 ta_n t0] by (simp add: get_iff)
  have tier_kept: "lookup ?h' t = Some (TierObj tier)" if "lookup h t = Some (TierObj tier)" for t tier
  proof -
    from that have "t \<noteq> ?n" using lookup_less by fastforce
    from keeps_lookup [OF h_h' this that] show ?thesis .
  qed
  have closures: "all_some (map (createTierQueueConstructor ?h' base) (zip refs [0..<length refs]))
      = Some (map (the_closure h base) (zip refs [0..<length refs]))"
  proof (rule all_some_map)
    fix ti assume "ti \<in> set (zip refs [0..<length refs])"
    then have "(fst ti, snd ti) \<in> set (zip refs [0..<length refs])" by simp
    then have "fst ti \<in> set refs" by (rule set_zip_leftD)
    with objs obtain tier where tier: "get_tier h (fst ti) = Some tier"
      by (auto simp: list_all_iff)
    then have "get_tier ?h' (fst ti) = Some tier"
      using tier_kept [of "fst ti" tier] by (simp add: get_iff)
    with tier show "createTierQueueConstructor ?h' base ti = Some (the_closure h base ti)"
      by (simp add: createTierQueueConstructor_def the_closure_def tier_name_def)
  qed
  \<comment> \<open>the constructor returns\<close>
  have r6: "get_routing ?h6 ra = Some ?r" using fr6 by (simp add: get_iff)
  have e8: "get_exchanges ?h8 ea = Some ?es" using fe8 by (simp add: get_iff)
  have built: "AMQPTieredListener h base ta oa = Some (?h', ?l)"
    unfolding AMQPTieredListener_def
    using closures
    by (simp add: given alloc_def q c e b r r6 d t7 e8 given_circular_def)
  \<comment> \<open>and leaves the store as described\<close>
  have "lookup ?h6 ?n = Some (OptionsObj ?o')"
    using len5 by (simp add: lookup_def)
  then have "lookup h7 ?n = Some (OptionsObj ?o')"
    by (rule extD [OF ext_or_alloc [OF d]])
  then have opts: "lookup ?h' ?n = Some (OptionsObj ?o')"
    using extD [OF ext_append [of h7 "[TierArray refs, ExchangeArray (?es @ [da])]"]] by simp
  have ext: "ext h ?h'"
    unfolding ext_def
  proof (intro allI impI)
    fix a c assume l: "lookup h a = Some c"
    then have "a \<noteq> ?n" using lookup_less by fastforce
    from keeps_lookup [OF h_h' this l] show "lookup ?h' a = Some c" .
  qed
  have tiersCopy: "lookup ?h' (length h7) = Some (TierArray refs)"
    by (simp add: lookup_def nth_append)
  have exchangesAll: "lookup ?h' (Suc (length h7)) = Some (ExchangeArray (?es @ [da]))"
    by (simp add: lookup_def nth_append)
  have tier_objs: "\<forall>t \<in> set refs. \<exists>tier. lookup h t = Some (TierObj tier) \<and> lookup ?h' t = Some (TierObj tier)"
  proof
    fix t assume "t \<in> set refs"
    with objs obtain tier where "get_tier h t = Some tier" by (auto simp: list_all_iff)
    then have "lookup h t = Some (TierObj tier)" by (simp add: get_iff)
    with extD [OF ext] show "\<exists>tier. lookup h t = Some (TierObj tier) \<and> lookup ?h' t = Some (TierObj tier)"
      by blast
  qed
  have ex_objs: "\<forall>e \<in> set ?es. \<exists>ex. lookup h e = Some (ExchangeObj ex) \<and> lookup ?h' e = Some (ExchangeObj ex)"
  proof
    fix e assume "e \<in> set ?es"
    with valid obtain ex where "get_exchange h e = Some ex"
      by (auto simp: valid_options_def given_exchange_refs_def list_all_iff split: option.splits)
    then have "lookup h e = Some (ExchangeObj ex)" by (simp add: get_iff)
    with extD [OF ext] show "\<exists>ex. lookup h e = Some (ExchangeObj ex) \<and> lookup ?h' e = Some (ExchangeObj ex)"
      by blast
  qed
  have "laid_out h base given refs ?h' ?l"
    unfolding laid_out_def
    using opts fq fc fb fd tiersCopy exchangesAll tier_objs ex_objs
    by simp
  then have "built_as h base given refs ?h' ?l"
    unfolding built_as_def using ext len7 by simp
  with built show ?thesis by blast
qed


lemma at_index_nth: "i < length xs \<Longrightarrow> at_index xs (int i) = Some (xs ! i)"
  by (simp add: at_index_def)

lemma map_filter_all:
  "(\<And>x. x \<in> set xs \<Longrightarrow> f x = Some (g x)) \<Longrightarrow> List.map_filter f xs = map g xs"
  by (induction xs) (simp_all add: List.map_filter_simps)

lemma constructConsumer_laid_out:
  assumes lo: "laid_out h base given refs hx l"
      and i: "i < length refs"
  shows "constructConsumer hx l (tl_consumerConstructors l ! i) ch
           = Some (layout_consumer h base given refs i ch)"
proof -
  from lo obtain o' qa ca ba where
    o: "get_options hx (tl_options l) = Some o'"
    and q: "to_queue o' = Some qa" "get_queue hx qa = Some (given_queue h given)"
    and c: "to_consume o' = Some ca" "get_consume hx ca = Some (given_consume h given)"
    and b: "to_binds o' = Some ba" "get_binds hx ba = Some (given_binds h given)"
    unfolding laid_out_def get_iff by blast
  from lo have d: "get_exchange hx (tl_deadLetterExchange l) = Some (given_deadLetterExchange h base given)"
    and circ: "tl_circular l = given_circular h given"
    and ts: "get_tiers hx (tl_tiers l) = Some refs"
    and es: "get_exchanges hx (tl_exchanges l) = Some (given_exchange_refs h given @ [tl_deadLetterExchange l])"
    and ks: "tl_consumerConstructors l = map (the_closure h base) (zip refs [0..<length refs])"
    unfolding laid_out_def get_iff by blast+
  from lo have objs: "\<And>t. t \<in> set refs \<Longrightarrow> \<exists>tier. get_tier h t = Some tier \<and> get_tier hx t = Some tier"
    unfolding laid_out_def get_iff by blast
  from lo have exs: "\<And>e. e \<in> set (given_exchange_refs h given) \<Longrightarrow>
      \<exists>ex. get_exchange h e = Some ex \<and> get_exchange hx e = Some ex"
    unfolding laid_out_def get_iff by blast
  have tier_at: "get_tier hx (refs ! j) = Some \<lparr>t_name = tier_name h (refs ! j), t_delay = tier_delay h (refs ! j)\<rparr>"
    if "j < length refs" for j
  proof -
    from that have "refs ! j \<in> set refs" by simp
    from objs [OF this] show ?thesis
      by (auto simp: tier_name_def tier_delay_def)
  qed
  have k: "tl_consumerConstructors l ! i = the_closure h base (refs ! i, i)"
    using i by (simp add: ks)
  have all_ex: "all_some (map (get_exchange hx) (given_exchange_refs h given @ [tl_deadLetterExchange l]))
      = Some (given_exchanges h given @ [given_deadLetterExchange h base given])"
  proof (rule all_some_append)
    have "all_some (map (get_exchange hx) (given_exchange_refs h given))
        = Some (map (\<lambda>e. the (get_exchange h e)) (given_exchange_refs h given))"
      by (rule all_some_map) (use exs in fastforce)
    moreover have "given_exchanges h given = map (\<lambda>e. the (get_exchange h e)) (given_exchange_refs h given)"
      unfolding given_exchanges_def
      by (rule map_filter_all) (use exs in fastforce)
    ultimately show "all_some (map (get_exchange hx) (given_exchange_refs h given))
        = Some (given_exchanges h given)" by simp
  qed (rule d)
  have all_ex': "all_some (map (get_exchange hx) (given_exchange_refs h given)
        @ [Some (given_deadLetterExchange h base given)])
      = Some (given_exchanges h given @ [given_deadLetterExchange h base given])"
    using all_ex d by simp
  have first: "0 < length refs" using i by (cases refs) simp_all
  show ?thesis
  proof (cases "i + 1 < length refs")
    case True
    then have ne: "int i \<noteq> int (length refs) - 1" by simp
    from True have nxt: "at_index refs (int i + 1) = Some (refs ! (i + 1))"
      using at_index_nth [of "i + 1" refs] by (simp add: add.commute)
    from True have nxt_tier: "get_tier hx (refs ! Suc i)
        = Some \<lparr>t_name = tier_name h (refs ! Suc i), t_delay = tier_delay h (refs ! Suc i)\<rparr>"
      using tier_at [of "Suc i"] by simp
    show ?thesis
      unfolding constructConsumer_def
      using True ne
      by (simp add: o q c b d circ ts es k all_ex' nxt tier_at [OF i] nxt_tier i the_closure_def
            layout_consumer_def layout_queueOptions_def layout_binds_def)
  next
    case False
    with i have eq: "int i = int (length refs) - 1" by simp
    have fst0: "at_index refs 0 = Some (refs ! 0)"
      using at_index_nth [OF first] by simp
    show ?thesis
      unfolding constructConsumer_def
      using False eq
      by (simp add: o q c b d circ ts es k all_ex' fst0 tier_at [OF i] tier_at [OF first] i the_closure_def
            layout_consumer_def layout_queueOptions_def layout_binds_def)
  qed
qed

lemma messageSettled_laid_out:
  assumes lo: "laid_out h base given refs hx l"
      and i: "i < length refs"
  shows "messageSettled hx l (tl_consumerConstructors l ! i) handled
           = Some (layout_action h given refs i handled)"
proof -
  from lo have circ: "tl_circular l = given_circular h given"
    and ts: "get_tiers hx (tl_tiers l) = Some refs"
    and ks: "tl_consumerConstructors l = map (the_closure h base) (zip refs [0..<length refs])"
    unfolding laid_out_def get_iff by blast+
  from lo have objs: "\<And>t. t \<in> set refs \<Longrightarrow> \<exists>tier. get_tier h t = Some tier \<and> get_tier hx t = Some tier"
    unfolding laid_out_def get_iff by blast
  from i have "refs ! i \<in> set refs" by simp
  from objs [OF this] have tier: "get_tier hx (refs ! i)
      = Some \<lparr>t_name = tier_name h (refs ! i), t_delay = tier_delay h (refs ! i)\<rparr>"
    by (auto simp: tier_name_def tier_delay_def)
  have k: "tl_consumerConstructors l ! i = the_closure h base (refs ! i, i)"
    using i by (simp add: ks)
  have "int i \<noteq> int (length refs) - 1 \<longleftrightarrow> i + 1 < length refs"
    using i by auto
  then show ?thesis
    by (cases handled)
       (simp_all add: messageSettled_def layout_action_def ts tier k circ the_closure_def)
qed


lemma laid_out_frame:
  assumes lo: "laid_out h base given refs h' l"
      and bounds: "length h \<le> tl_options l" "length h \<le> tl_tiers l"
      and ext: "ext h h'"
      and ta: "ta < length h"
      and oa: "\<And>a. oa = Some a \<Longrightarrow> a < length h"
      and tcell: "\<exists>ts. lookup h ta = Some (TierArray ts)"
      and ocell: "\<And>a. oa = Some a \<Longrightarrow> \<exists>opts. lookup h a = Some (OptionsObj opts)"
      and size: "length h' \<le> length h2"
      and frame: "\<forall>a < length h'. a \<noteq> ta \<and> Some a \<noteq> oa \<longrightarrow> h2 ! a = h' ! a"
  shows "laid_out h base given refs h2 l"
proof -
  have kept: "lookup h2 a = Some c" if "lookup h' a = Some c" "a \<noteq> ta" "Some a \<noteq> oa" for a c
    using that size frame by (auto simp: lookup_def split: if_splits)
  from tcell obtain ts where t': "lookup h' ta = Some (TierArray ts)"
    using extD [OF ext] by blast
  have o': "\<exists>opts. lookup h' a = Some (OptionsObj opts)" if "oa = Some a" for a
    using ocell [OF that] extD [OF ext] by blast
  have other: "lookup h2 a = Some c"
    if "lookup h' a = Some c" "\<not> (\<exists>ts. c = TierArray ts)" "\<not> (\<exists>opts. c = OptionsObj opts)" for a c
  proof (rule kept [OF that(1)])
    show "a \<noteq> ta" using that t' by auto
    show "Some a \<noteq> oa" using that o' [of a] by auto
  qed
  have high: "lookup h2 a = Some c" if "lookup h' a = Some c" "length h \<le> a" for a c
  proof (rule kept [OF that(1)])
    show "a \<noteq> ta" using that ta by simp
    show "Some a \<noteq> oa" using that oa [of a] by auto
  qed
  from lo obtain o' qa ca ba where
    o: "lookup h' (tl_options l) = Some (OptionsObj o')"
    and q: "to_queue o' = Some qa" "lookup h' qa = Some (QueueObj (given_queue h given))"
    and c: "to_consume o' = Some ca" "lookup h' ca = Some (ConsumeObj (given_consume h given))"
    and b: "to_binds o' = Some ba" "lookup h' ba = Some (BindingArray (given_binds h given))"
    unfolding laid_out_def by blast
  have opts: "\<exists>o' qa ca ba.
           lookup h2 (tl_options l) = Some (OptionsObj o')
           \<and> to_queue o' = Some qa \<and> lookup h2 qa = Some (QueueObj (given_queue h given))
           \<and> to_consume o' = Some ca \<and> lookup h2 ca = Some (ConsumeObj (given_consume h given))
           \<and> to_binds o' = Some ba \<and> lookup h2 ba = Some (BindingArray (given_binds h given))"
    using high [OF o bounds(1)] q(1) other [OF q(2)] c(1) other [OF c(2)] b(1) other [OF b(2)]
    by simp
  from lo have d: "lookup h' (tl_deadLetterExchange l)
          = Some (ExchangeObj (given_deadLetterExchange h base given))"
    and ts: "lookup h' (tl_tiers l) = Some (TierArray refs)"
    and es: "lookup h' (tl_exchanges l)
          = Some (ExchangeArray (given_exchange_refs h given @ [tl_deadLetterExchange l]))"
    and objs: "\<forall>t \<in> set refs. \<exists>tier. lookup h t = Some (TierObj tier) \<and> lookup h' t = Some (TierObj tier)"
    and exs: "\<forall>e \<in> set (given_exchange_refs h given).
            \<exists>ex. lookup h e = Some (ExchangeObj ex) \<and> lookup h' e = Some (ExchangeObj ex)"
    unfolding laid_out_def by blast+
  have objs2: "\<forall>t \<in> set refs. \<exists>tier. lookup h t = Some (TierObj tier) \<and> lookup h2 t = Some (TierObj tier)"
    using objs other by fastforce
  have exs2: "\<forall>e \<in> set (given_exchange_refs h given).
            \<exists>ex. lookup h e = Some (ExchangeObj ex) \<and> lookup h2 e = Some (ExchangeObj ex)"
    using exs other by fastforce
  from lo show ?thesis
    unfolding laid_out_def
    using opts other [OF d] high [OF ts bounds(2)] other [OF es] objs2 exs2
    by simp
qed


lemma valid_argumentsD:
  assumes "valid_arguments h ta oa" "shallowCopyOption h oa = Some given" "get_tiers h ta = Some refs"
  shows "valid_options h given" "list_all (\<lambda>t. get_tier h t \<noteq> None) refs"
  using assms by (simp_all add: valid_arguments_def)

lemma built_valid:
  assumes valid: "valid_arguments h ta oa"
      and given: "shallowCopyOption h oa = Some given"
      and tiers: "get_tiers h ta = Some refs"
  shows "\<exists>h' l. AMQPTieredListener h base ta oa = Some (h', l) \<and> built_as h base given refs h' l"
  by (rule constructor_valid [OF given valid_argumentsD(1) [OF valid given tiers] tiers
        valid_argumentsD(2) [OF valid given tiers]])

lemma laid_out_length:
  "laid_out h base given refs hx l \<Longrightarrow> length (tl_consumerConstructors l) = length refs"
  by (simp add: laid_out_def)

text \<open>
  Claim C1, as the code has it. For arguments of the documented shapes and every tier
  \<open>i\<close> of the \<open>N\<close> tiers, the constructor returns, it has made \<open>N\<close> consumer
  constructors, and on the store it leaves the constructor of tier \<open>i\<close> returns a
  consumer of the queue named base, \<^verbatim>\<open>-\<close>, tier name. For \<open>i < N - 1\<close> its queue
  options carry the name of the dead-letter exchange as \<^verbatim>\<open>deadLetterExchange\<close> and the
  name of tier \<open>i + 1\<close> as \<^verbatim>\<open>deadLetterRoutingKey\<close>; for the last tier of a circular
  listener they carry the exchange and the name of tier 0; for the last tier otherwise
  they are exactly the queue options the caller supplied, nothing added and nothing
  removed. The bindings are the one to the dead-letter exchange with the tier's own
  name as pattern, followed, for tier 0 only, by the caller's bindings.
\<close>

theorem tier_layout:
  assumes valid: "valid_arguments h ta oa"
      and given: "shallowCopyOption h oa = Some given"
      and tiers: "get_tiers h ta = Some refs"
      and i: "i < length refs"
  shows "\<exists>h' l c.
      AMQPTieredListener h base ta oa = Some (h', l)
      \<and> length (tl_consumerConstructors l) = length refs
      \<and> tl_circular l = given_circular h given
      \<and> constructConsumer h' l (tl_consumerConstructors l ! i) ch = Some c
      \<and> ac_queueName c = base @ ''-'' @ tier_name h (refs ! i)
      \<and> (i < length refs - 1 \<longrightarrow>
           map_of (ac_queueOptions c) ''deadLetterExchange''
             = Some (OStr (ex_name (given_deadLetterExchange h base given)))
           \<and> map_of (ac_queueOptions c) ''deadLetterRoutingKey''
             = Some (OStr (tier_name h (refs ! (i + 1)))))
      \<and> (i = length refs - 1 \<and> given_circular h given \<longrightarrow>
           map_of (ac_queueOptions c) ''deadLetterExchange''
             = Some (OStr (ex_name (given_deadLetterExchange h base given)))
           \<and> map_of (ac_queueOptions c) ''deadLetterRoutingKey''
             = Some (OStr (tier_name h (refs ! 0))))
      \<and> (i = length refs - 1 \<and> \<not> given_circular h given \<longrightarrow>
           ac_queueOptions c = given_queue h given)
      \<and> ac_binds c
           = \<lparr>b_exchange = ex_name (given_deadLetterExchange h base given),
              b_pattern = tier_name h (refs ! i), b_options = None\<rparr>
             # (if i = 0 then given_binds h given else [])"
proof -
  from built_valid [OF valid given tiers] obtain h' l where
    built: "AMQPTieredListener h base ta oa = Some (h', l)"
    and lo: "laid_out h base given refs h' l"
    unfolding built_as_def by blast
  let ?c = "layout_consumer h base given refs i ch"
  have made: "constructConsumer h' l (tl_consumerConstructors l ! i) ch = Some ?c"
    by (rule constructConsumer_laid_out [OF lo i])
  from lo have circ: "tl_circular l = given_circular h given"
    by (simp add: laid_out_def)
  have name: "ac_queueName ?c = base @ ''-'' @ tier_name h (refs ! i)"
    by (simp add: layout_consumer_def AMQPConsumer_new_def)
  have qo: "ac_queueOptions ?c = layout_queueOptions h base given refs i"
    by (simp add: layout_consumer_def AMQPConsumer_new_def)
  have binds: "ac_binds ?c
           = \<lparr>b_exchange = ex_name (given_deadLetterExchange h base given),
              b_pattern = tier_name h (refs ! i), b_options = None\<rparr>
             # (if i = 0 then given_binds h given else [])"
    by (simp add: layout_consumer_def AMQPConsumer_new_def layout_binds_def)
  have inner_iff: "i < length refs - 1 \<longleftrightarrow> Suc i < length refs"
    by auto
  have last_iff: "i = length refs - 1 \<longleftrightarrow> \<not> Suc i < length refs"
    using i by auto
  have inner: "i < length refs - 1 \<longrightarrow>
           map_of (ac_queueOptions ?c) ''deadLetterExchange''
             = Some (OStr (ex_name (given_deadLetterExchange h base given)))
           \<and> map_of (ac_queueOptions ?c) ''deadLetterRoutingKey''
             = Some (OStr (tier_name h (refs ! (i + 1))))"
    using inner_iff by (simp add: qo layout_queueOptions_def update_conv')
  have last_circular: "i = length refs - 1 \<and> given_circular h given \<longrightarrow>
           map_of (ac_queueOptions ?c) ''deadLetterExchange''
             = Some (OStr (ex_name (given_deadLetterExchange h base given)))
           \<and> map_of (ac_queueOptions ?c) ''deadLetterRoutingKey''
             = Some (OStr (tier_name h (refs ! 0)))"
    using last_iff by (simp add: qo layout_queueOptions_def update_conv')
  have last_plain: "i = length refs - 1 \<and> \<not> given_circular h given \<longrightarrow>
           ac_queueOptions ?c = given_queue h given"
    using last_iff by (simp add: qo layout_queueOptions_def)
  from built laid_out_length [OF lo] circ made name inner last_circular last_plain binds
  show ?thesis by blast
qed

text \<open>
  Claim C2. For a message delivered to the consumer of tier \<open>i\<close>: when the handler's
  promise is fulfilled the message is acknowledged; when it is rejected and the tier is
  not the last one or the listener is circular, a timer of the tier's delay runs
  \<^verbatim>\<open>reject\<close> (reject without requeueing); when it is rejected on the last tier of a
  listener that is not circular, a timer of the tier's delay runs \<^verbatim>\<open>requeue\<close> (reject
  with requeueing). A single tier is the last tier.
\<close>

theorem tier_failure_handling:
  assumes valid: "valid_arguments h ta oa"
      and given: "shallowCopyOption h oa = Some given"
      and tiers: "get_tiers h ta = Some refs"
      and i: "i < length refs"
  shows "\<exists>h' l.
      AMQPTieredListener h base ta oa = Some (h', l)
      \<and> tl_circular l = given_circular h given
      \<and> messageSettled h' l (tl_consumerConstructors l ! i) Fulfilled = Some AckNow
      \<and> (\<forall>reason. messageSettled h' l (tl_consumerConstructors l ! i) (Rejected reason)
            = Some (if i < length refs - 1 \<or> given_circular h given
                    then RejectAfter (tier_delay h (refs ! i))
                    else RequeueAfter (tier_delay h (refs ! i))))
      \<and> perform m AckNow = (0, Ack m)
      \<and> (\<forall>d. perform m (RejectAfter d) = (d, Reject m False)
              \<and> perform m (RequeueAfter d) = (d, Reject m True))"
proof -
  from built_valid [OF valid given tiers] obtain h' l where
    built: "AMQPTieredListener h base ta oa = Some (h', l)"
    and lo: "laid_out h base given refs h' l"
    unfolding built_as_def by blast
  from lo have circ: "tl_circular l = given_circular h given"
    by (simp add: laid_out_def)
  have ok: "messageSettled h' l (tl_consumerConstructors l ! i) Fulfilled = Some AckNow"
    using messageSettled_laid_out [OF lo i, of Fulfilled] by (simp add: layout_action_def)
  have "i < length refs - 1 \<longleftrightarrow> i + 1 < length refs" by auto
  then have failed: "\<forall>reason. messageSettled h' l (tl_consumerConstructors l ! i) (Rejected reason)
            = Some (if i < length refs - 1 \<or> given_circular h given
                    then RejectAfter (tier_delay h (refs ! i))
                    else RequeueAfter (tier_delay h (refs ! i)))"
    using messageSettled_laid_out [OF lo i] by (simp add: layout_action_def)
  have ops: "perform m AckNow = (0, Ack m)
      \<and> (\<forall>d. perform m (RejectAfter d) = (d, Reject m False)
              \<and> perform m (RequeueAfter d) = (d, Reject m True))"
    by (simp add: perform_def)
  from built circ ok failed ops show ?thesis by blast
qed

text \<open>
  Claim C10. The listener is built in store \<open>h\<close>, leaving store \<open>h'\<close>. Let \<open>h2\<close> be
  any later store that differs from \<open>h'\<close> at most in the caller's tier array, in the
  caller's options object and in cells allocated since. Then the listener's copies are
  other cells than the caller's two, there are as many consumer constructors as there
  were tiers at construction, and every one of them returns on \<open>h2\<close> the consumer it
  returns on \<open>h'\<close>, which is the one laid out from the store at construction: same
  queue name, same dead-letter routing, same bindings. The handling of a message is
  the same as well.
\<close>

theorem later_consumers_unchanged:
  assumes valid: "valid_arguments h ta oa"
      and given: "shallowCopyOption h oa = Some given"
      and tiers: "get_tiers h ta = Some refs"
      and built: "AMQPTieredListener h base ta oa = Some (h', l)"
      and size: "length h' \<le> length h2"
      and frame: "\<forall>a < length h'. a \<noteq> ta \<and> Some a \<noteq> oa \<longrightarrow> h2 ! a = h' ! a"
  shows "length (tl_consumerConstructors l) = length refs
      \<and> tl_tiers l \<noteq> ta \<and> Some (tl_options l) \<noteq> oa
      \<and> (\<forall>i < length refs.
            constructConsumer h2 l (tl_consumerConstructors l ! i) ch
              = constructConsumer h' l (tl_consumerConstructors l ! i) ch
            \<and> constructConsumer h' l (tl_consumerConstructors l ! i) ch
              = Some (layout_consumer h base given refs i ch)
            \<and> messageSettled h2 l (tl_consumerConstructors l ! i) handled
              = messageSettled h' l (tl_consumerConstructors l ! i) handled)"
proof -
  from built_valid [OF valid given tiers, of base] built have b: "built_as h base given refs h' l"
    by auto
  then have lo: "laid_out h base given refs h' l"
    and bounds: "length h \<le> tl_options l" "length h \<le> tl_tiers l"
    and ext: "ext h h'"
    by (simp_all add: built_as_def)
  from tiers have tcell: "lookup h ta = Some (TierArray refs)"
    by (simp add: get_iff)
  then have ta: "ta < length h" by (rule lookup_less)
  have ocell: "\<exists>opts. lookup h a = Some (OptionsObj opts)" if "oa = Some a" for a
    using given that by (simp add: shallowCopyOption_def get_iff)
  have oa: "a < length h" if "oa = Some a" for a
    using ocell [OF that] lookup_less by blast
  have lo2: "laid_out h base given refs h2 l"
    by (rule laid_out_frame [OF lo bounds ext ta oa _ ocell size frame]) (use tcell in auto)
  have fresh: "tl_tiers l \<noteq> ta \<and> Some (tl_options l) \<noteq> oa"
    using bounds ta oa by auto
  have each: "constructConsumer h2 l (tl_consumerConstructors l ! i) ch
              = constructConsumer h' l (tl_consumerConstructors l ! i) ch
            \<and> constructConsumer h' l (tl_consumerConstructors l ! i) ch
              = Some (layout_consumer h base given refs i ch)
            \<and> messageSettled h2 l (tl_consumerConstructors l ! i) handled
              = messageSettled h' l (tl_consumerConstructors l ! i) handled"
    if "i < length refs" for i
    using constructConsumer_laid_out [OF lo that] constructConsumer_laid_out [OF lo2 that]
      messageSettled_laid_out [OF lo that] messageSettled_laid_out [OF lo2 that]
    by simp
  from laid_out_length [OF lo] fresh each show ?thesis by blast
qed

lemmas store_defs = example_store_def example_options_def parking_store_def
  valid_arguments_def valid_options_def valid_ref_def shallowCopyOption_def
  lookup_def get_tier_def get_tiers_def get_queue_def get_consume_def get_exchange_def
  get_exchanges_def get_binds_def get_routing_def get_options_def

text \<open>
  Claim C1 says that the last tier of a listener that is not circular declares its queue
  with no dead-letter settings. The queue options start as a copy of the caller's, so a
  caller whose queue options name a dead-letter exchange gets it on the last tier too:
  a listener with the single tier \<^verbatim>\<open>only\<close>, not circular, built with queue options
  \<^verbatim>\<open>{deadLetterExchange: 'parking'}\<close>, declares the queue of that tier with exactly
  these options.
\<close>

theorem last_tier_keeps_given_dead_letter:
  "AMQPTieredListener parking_store ''work'' 1 (Some 3) \<noteq> None
   \<and> \<not> tl_circular (snd (the (AMQPTieredListener parking_store ''work'' 1 (Some 3))))
   \<and> length (tl_consumerConstructors (snd (the (AMQPTieredListener parking_store ''work'' 1 (Some 3))))) = 1
   \<and> map_option ac_queueOptions
        (constructConsumer (fst (the (AMQPTieredListener parking_store ''work'' 1 (Some 3))))
           (snd (the (AMQPTieredListener parking_store ''work'' 1 (Some 3))))
           (hd (tl_consumerConstructors (snd (the (AMQPTieredListener parking_store ''work'' 1 (Some 3))))))
           0)
       = Some [(''deadLetterExchange'', OStr ''parking'')]"
  by code_simp


lemmas view_defs = tier_name_def tier_delay_def given_queue_def given_consume_def given_binds_def
  given_exchange_refs_def given_routing_def given_circular_def given_deadLetterExchange_def

text \<open>
  The listener of the example program, tier 0 (\<^verbatim>\<open>fast\<close>) and tier 2 (\<^verbatim>\<open>slow\<close>, the
  last).
\<close>

theorem tier_layout_witness:
  "(\<exists>h' l c.
      AMQPTieredListener example_store ''processor'' 3 (Some 9) = Some (h', l)
      \<and> length (tl_consumerConstructors l) = 3
      \<and> constructConsumer h' l (tl_consumerConstructors l ! 0) 7 = Some c
      \<and> ac_queueName c = ''processor-fast''
      \<and> map_of (ac_queueOptions c) ''deadLetterExchange'' = Some (OStr ''processorDLX'')
      \<and> map_of (ac_queueOptions c) ''deadLetterRoutingKey'' = Some (OStr ''medium'')
      \<and> ac_binds c = [\<lparr>b_exchange = ''processorDLX'', b_pattern = ''fast'', b_options = None\<rparr>,
                       \<lparr>b_exchange = ''Events'', b_pattern = ''#'', b_options = None\<rparr>])
   \<and> (\<exists>h' l c.
      AMQPTieredListener example_store ''processor'' 3 (Some 9) = Some (h', l)
      \<and> \<not> tl_circular l
      \<and> constructConsumer h' l (tl_consumerConstructors l ! 2) 7 = Some c
      \<and> ac_queueName c = ''processor-slow''
      \<and> ac_queueOptions c = []
      \<and> ac_binds c = [\<lparr>b_exchange = ''processorDLX'', b_pattern = ''slow'', b_options = None\<rparr>])"
proof -
  have valid: "valid_arguments example_store 3 (Some 9)"
    and given: "shallowCopyOption example_store (Some 9) = Some example_options"
    and tiers: "get_tiers example_store 3 = Some [0, 1, 2]"
    by (simp_all add: store_defs)
  have views: "tier_name example_store 0 = ''fast''" "tier_name example_store (Suc 0) = ''medium''"
    "tier_name example_store 2 = ''slow''"
    "ex_name (given_deadLetterExchange example_store ''processor'' example_options) = ''processorDLX''"
    "given_binds example_store example_options
       = [\<lparr>b_exchange = ''Events'', b_pattern = ''#'', b_options = None\<rparr>]"
    "given_queue example_store example_options = []"
    "\<not> given_circular example_store example_options"
    by (simp_all add: view_defs store_defs)
  have first: "(0::nat) < length [0::nat, 1, 2]" and last: "(2::nat) < length [0::nat, 1, 2]"
    by simp_all
  from tier_layout [OF valid given tiers first, of "''processor''" 7]
  have a: "\<exists>h' l c.
      AMQPTieredListener example_store ''processor'' 3 (Some 9) = Some (h', l)
      \<and> length (tl_consumerConstructors l) = 3
      \<and> constructConsumer h' l (tl_consumerConstructors l ! 0) 7 = Some c
      \<and> ac_queueName c = ''processor-fast''
      \<and> map_of (ac_queueOptions c) ''deadLetterExchange'' = Some (OStr ''processorDLX'')
      \<and> map_of (ac_queueOptions c) ''deadLetterRoutingKey'' = Some (OStr ''medium'')
      \<and> ac_binds c = [\<lparr>b_exchange = ''processorDLX'', b_pattern = ''fast'', b_options = None\<rparr>,
                       \<lparr>b_exchange = ''Events'', b_pattern = ''#'', b_options = None\<rparr>]"
    by (fastforce simp: views)
  from tier_layout [OF valid given tiers last, of "''processor''" 7]
  have b: "\<exists>h' l c.
      AMQPTieredListener example_store ''processor'' 3 (Some 9) = Some (h', l)
      \<and> \<not> tl_circular l
      \<and> constructConsumer h' l (tl_consumerConstructors l ! 2) 7 = Some c
      \<and> ac_queueName c = ''processor-slow''
      \<and> ac_queueOptions c = []
      \<and> ac_binds c = [\<lparr>b_exchange = ''processorDLX'', b_pattern = ''slow'', b_options = None\<rparr>]"
    by (fastforce simp: views)
  from a b show ?thesis by blast
qed

text \<open>
  The example program again: a failure on \<^verbatim>\<open>fast\<close> is rejected after 500 ms, a
  failure on \<^verbatim>\<open>slow\<close> is requeued after 10 s.
\<close>

theorem tier_failure_handling_witness:
  "(\<exists>h' l.
      AMQPTieredListener example_store ''processor'' 3 (Some 9) = Some (h', l)
      \<and> messageSettled h' l (tl_consumerConstructors l ! 0) Fulfilled = Some AckNow
      \<and> messageSettled h' l (tl_consumerConstructors l ! 0) (Rejected TypeError)
          = Some (RejectAfter 500))
   \<and> (\<exists>h' l.
      AMQPTieredListener example_store ''processor'' 3 (Some 9) = Some (h', l)
      \<and> messageSettled h' l (tl_consumerConstructors l ! 2) (Rejected TypeError)
          = Some (RequeueAfter 10000)
      \<and> perform 5 (RequeueAfter 10000) = (10000, Reject 5 True))"
proof -
  have valid: "valid_arguments example_store 3 (Some 9)"
    and given: "shallowCopyOption example_store (Some 9) = Some example_options"
    and tiers: "get_tiers example_store 3 = Some [0, 1, 2]"
    by (simp_all add: store_defs)
  have views: "tier_delay example_store 0 = 500" "tier_delay example_store 2 = 10000"
    "\<not> given_circular example_store example_options"
    by (simp_all add: view_defs store_defs)
  have first: "(0::nat) < length [0::nat, 1, 2]" and last: "(2::nat) < length [0::nat, 1, 2]"
    by simp_all
  from tier_failure_handling [OF valid given tiers first, of "''processor''" 5]
  have a: "\<exists>h' l.
      AMQPTieredListener example_store ''processor'' 3 (Some 9) = Some (h', l)
      \<and> messageSettled h' l (tl_consumerConstructors l ! 0) Fulfilled = Some AckNow
      \<and> messageSettled h' l (tl_consumerConstructors l ! 0) (Rejected TypeError)
          = Some (RejectAfter 500)"
    by (fastforce simp: views)
  from tier_failure_handling [OF valid given tiers last, of "''processor''" 5]
  have b: "\<exists>h' l.
      AMQPTieredListener example_store ''processor'' 3 (Some 9) = Some (h', l)
      \<and> messageSettled h' l (tl_consumerConstructors l ! 2) (Rejected TypeError)
          = Some (RequeueAfter 10000)
      \<and> perform 5 (RequeueAfter 10000) = (10000, Reject 5 True)"
    by (fastforce simp: views)
  from a b show ?thesis by blast
qed

text \<open>
  The example program, after the caller has cut its tier array down to the last tier
  and emptied its options object: tier 0 still gets the consumer it got before.
\<close>

theorem later_consumers_unchanged_witness:
  "constructConsumer
     ((fst (the (AMQPTieredListener example_store ''processor'' 3 (Some 9))))
        [3 := TierArray [2],
         9 := OptionsObj \<lparr>to_queue = None, to_consume = None, to_exchanges = None,
                           to_binds = None, to_routing = None, to_messageHandler = None\<rparr>])
     (snd (the (AMQPTieredListener example_store ''processor'' 3 (Some 9))))
     (tl_consumerConstructors (snd (the (AMQPTieredListener example_store ''processor'' 3 (Some 9)))) ! 0)
     7
   = constructConsumer
     (fst (the (AMQPTieredListener example_store ''processor'' 3 (Some 9))))
     (snd (the (AMQPTieredListener example_store ''processor'' 3 (Some 9))))
     (tl_consumerConstructors (snd (the (AMQPTieredListener example_store ''processor'' 3 (Some 9)))) ! 0)
     7
   \<and> length (tl_consumerConstructors
        (snd (the (AMQPTieredListener example_store ''processor'' 3 (Some 9))))) = 3"
proof -
  let ?built = "AMQPTieredListener example_store ''processor'' 3 (Some 9)"
  let ?h' = "fst (the ?built)"
  let ?l = "snd (the ?built)"
  let ?h2 = "?h'[3 := TierArray [2],
         9 := OptionsObj \<lparr>to_queue = None, to_consume = None, to_exchanges = None,
                           to_binds = None, to_routing = None, to_messageHandler = None\<rparr>]"
  have valid: "valid_arguments example_store 3 (Some 9)"
    and given: "shallowCopyOption example_store (Some 9) = Some example_options"
    and tiers: "get_tiers example_store 3 = Some [0, 1, 2]"
    by (simp_all add: store_defs)
  have "?built \<noteq> None" by code_simp
  then have built: "?built = Some (?h', ?l)" by auto
  have size: "length ?h' \<le> length ?h2" by simp
  have frame: "\<forall>a < length ?h'. a \<noteq> 3 \<and> Some a \<noteq> Some 9 \<longrightarrow> ?h2 ! a = ?h' ! a"
    by simp
  from later_consumers_unchanged [OF valid given tiers built size frame, of 7 Fulfilled]
  show ?thesis by simp
qed

text \<open>
  The copy of the options is shallow: the queue options object is the caller's, and a
  change the caller makes inside it after construction does reach later consumers.
\<close>

lemma nested_queue_options_shared:
  "map_option ac_queueOptions
     (constructConsumer
        ((fst (the (AMQPTieredListener parking_store ''work'' 1 (Some 3))))
           [2 := QueueObj [(''durable'', OBool True)]])
        (snd (the (AMQPTieredListener parking_store ''work'' 1 (Some 3))))
        (hd (tl_consumerConstructors (snd (the (AMQPTieredListener parking_store ''work'' 1 (Some 3))))))
        0)
   = Some [(''durable'', OBool True)]"
  by code_simp

end
